theory Spec2Isabelle
  imports Complex_Main "HOL-Library.Log_Nat"
begin

section \<open>JavaScript values\<close>

text \<open>
  Several functions of the repository take arguments typed \<open>any\<close> (a parsed JSON
  answer, a document of the store, a request body, a thrown value).  They are modelled
  by one datatype of values: \<open>undefined\<close>, \<open>null\<close>, booleans, finite numbers,
  strings, the document store's timestamps (the only stored value with a \<open>toDate\<close>
  method; the integer is its time in milliseconds), \<open>Date\<close> objects (\<open>JDate v\<close>
  is \<open>new Date(v)\<close>), arrays and plain objects (key/value lists, the first binding
  of a key wins).
\<close>

datatype jsval =
    JUndefined
  | JNull
  | JBool bool
  | JNum rat
  | JStr string
  | JTimestamp int
  | JDate jsval
  | JArr "jsval list"
  | JObj "(string \<times> jsval) list"

text \<open>
  Property read \<open>v?.[key]\<close>: the property of an object, \<open>undefined\<close> when the
  object has no such property or when \<open>v\<close> is \<open>null\<close>, \<open>undefined\<close> or a
  primitive (none of the keys the program reads is a built-in property).
\<close>

fun js_get :: "jsval \<Rightarrow> string \<Rightarrow> jsval" where
  "js_get (JObj kvs) key = (case map_of kvs key of None \<Rightarrow> JUndefined | Some v \<Rightarrow> v)"
| "js_get v key = JUndefined"

text \<open>Truthiness, as \<open>||\<close>, \<open>&&\<close>, \<open>!\<close> and \<open>? :\<close> test it.\<close>

fun truthy :: "jsval \<Rightarrow> bool" where
  "truthy JUndefined = False"
| "truthy JNull = False"
| "truthy (JBool b) = b"
| "truthy (JNum n) = (n \<noteq> 0)"
| "truthy (JStr s) = (s \<noteq> [])"
| "truthy (JTimestamp t) = True"
| "truthy (JDate v) = True"
| "truthy (JArr xs) = True"
| "truthy (JObj kvs) = True"

text \<open>\<open>a || b\<close> on values.\<close>

definition js_or :: "jsval \<Rightarrow> jsval \<Rightarrow> jsval" where
  "js_or a b = (if truthy a then a else b)"

section \<open>Numbers\<close>

text \<open>
  \<open>Math.round\<close>: the nearest integer, a tie going up.
\<close>

definition js_round :: "rat \<Rightarrow> int" where
  "js_round x = \<lfloor>x + 1 / 2\<rfloor>"

text \<open>
  A number of the language is a binary64 value; the finite ones are rationals.
  \<open>to_double x\<close> is the binary64 value nearest to \<open>x\<close>, a tie going to the even
  significand: \<open>x\<close> is scaled by the unit in the last place of its binade (53
  significant bits, the exponent not below \<open>-1022\<close>, so that small values are
  subnormal) and rounded there.  Overflow to infinity is left out: the values below
  stay under \<open>2 ^ 1024\<close>.  A product, a sum and a quotient of two numbers are the
  exact result rounded once.
\<close>

definition round_half_even :: "rat \<Rightarrow> int" where
  "round_half_even x =
     (let f = \<lfloor>x\<rfloor>; d = x - of_int f
      in if d < 1 / 2 then f else if 1 / 2 < d then f + 1 else if even f then f else f + 1)"

text \<open>The exponent of the binade of a positive \<open>x\<close>: \<open>2 ^ e \<le> x < 2 ^ (e + 1)\<close>.\<close>

definition floor_log2 :: "rat \<Rightarrow> int" where
  "floor_log2 x =
     (let (p, q) = quotient_of x; d = bitlen p - bitlen q
      in if 2 powi d \<le> x then d else d - 1)"

definition to_double :: "rat \<Rightarrow> rat" where
  "to_double x =
     (if x = 0 then 0
      else let e = max (floor_log2 \<bar>x\<bar>) (- 1022);
               ulp = 2 powi (e - 52)
           in sgn x * of_int (round_half_even (\<bar>x\<bar> / ulp)) * ulp)"

definition fmul :: "rat \<Rightarrow> rat \<Rightarrow> rat" where
  "fmul a b = to_double (a * b)"

definition fadd :: "rat \<Rightarrow> rat \<Rightarrow> rat" where
  "fadd a b = to_double (a + b)"

definition fdiv :: "rat \<Rightarrow> rat \<Rightarrow> rat" where
  "fdiv a b = to_double (a / b)"

section \<open>The deterministic score (services/geminiService.ts)\<close>

datatype LeadType = NEW_LEAD | OLD_LEAD

datatype RelationshipType = LEAD | CLIENT

definition checklistKeys :: "string list" where
  "checklistKeys =
     [''dmVerified'', ''needDiscovery'', ''priceAdherence'', ''objectionHandled'',
      ''hardCloseAttempted'']"

definition keysToRemove :: "string list" where
  "keysToRemove = [''needDiscovery'', ''dmVerified'']"

text \<open>Lines 92 to 100: the checks that count for this lead.\<close>

definition applicableChecks :: "LeadType \<Rightarrow> RelationshipType \<Rightarrow> string list" where
  "applicableChecks leadType relationshipType =
     (if leadType = OLD_LEAD \<or> relationshipType = CLIENT
      then filter (\<lambda>key. key \<notin> set keysToRemove) checklistKeys
      else checklistKeys)"

text \<open>Line 102: the applicable checks whose entry in the compliance record is \<open>true\<close>.\<close>

definition passedChecks :: "jsval \<Rightarrow> LeadType \<Rightarrow> RelationshipType \<Rightarrow> string list" where
  "passedChecks compliance leadType relationshipType =
     filter (\<lambda>key. js_get compliance key = JBool True)
       (applicableChecks leadType relationshipType)"

text \<open>
  Lines 102 to 107: the score before the rejection penalty, in the arithmetic of the
  language.  The buying-signal count is an integer; \<open>buyingSignals || 0\<close> is the
  count itself.
\<close>

definition preRejectionScore ::
  "jsval \<Rightarrow> int \<Rightarrow> LeadType \<Rightarrow> RelationshipType \<Rightarrow> int" where
  "preRejectionScore compliance buyingSignals leadType relationshipType =
     (let passed = length (passedChecks compliance leadType relationshipType);
          percentage =
            fmul (fdiv (of_nat passed)
                    (of_nat (length (applicableChecks leadType relationshipType)))) 70;
          buyingBoost = fmul (of_int (min (if buyingSignals = 0 then 0 else buyingSignals) 5)) 6
      in min 100 (js_round (fadd percentage buyingBoost)))"

text \<open>The literals 0.15 and 0.6 of lines 110 and 114: the binary64 values nearest to them.\<close>

definition hardPenalty :: rat where
  "hardPenalty = to_double (15 / 100)"

definition softPenalty :: rat where
  "softPenalty = to_double (6 / 10)"

text \<open>Lines 107 to 116: the penalty of a rejected deal, and the final rounding.\<close>

definition calculateDeterministicScore ::
  "jsval \<Rightarrow> int \<Rightarrow> LeadType \<Rightarrow> RelationshipType \<Rightarrow> string \<Rightarrow> int" where
  "calculateDeterministicScore compliance buyingSignals leadType relationshipType dealOutcome =
     (let finalScore = of_int (preRejectionScore compliance buyingSignals leadType relationshipType);
          finalScore = (if dealOutcome = ''HardRejection''
                        then fmul finalScore hardPenalty else finalScore);
          finalScore = (if dealOutcome = ''SoftRejection''
                        then fmul finalScore softPenalty else finalScore)
      in js_round finalScore)"

text \<open>The locals \<open>percentage\<close> and \<open>buyingBoost\<close> of lines 103 and 105, named for the proofs.\<close>

definition percentage :: "jsval \<Rightarrow> LeadType \<Rightarrow> RelationshipType \<Rightarrow> rat" where
  "percentage compliance leadType relationshipType =
     fmul (fdiv (of_nat (length (passedChecks compliance leadType relationshipType)))
             (of_nat (length (applicableChecks leadType relationshipType)))) 70"

definition buyingBoost :: "int \<Rightarrow> rat" where
  "buyingBoost buyingSignals = fmul (of_int (min buyingSignals 5)) 6"

text \<open>
  The spec's reading of the score before the penalty, in exact arithmetic: the share of
  the applicable checks that are true, scaled to 70 points, plus 6 points per buying
  signal for at most 5 signals, rounded and capped at 100.  The passed checks are
  counted as a set.
\<close>

definition spec_passed :: "jsval \<Rightarrow> LeadType \<Rightarrow> RelationshipType \<Rightarrow> nat" where
  "spec_passed compliance leadType relationshipType =
     card {key \<in> set (applicableChecks leadType relationshipType).
             js_get compliance key = JBool True}"

definition spec_applicable :: "LeadType \<Rightarrow> RelationshipType \<Rightarrow> nat" where
  "spec_applicable leadType relationshipType =
     card (set (applicableChecks leadType relationshipType))"

definition spec_compliancePoints :: "jsval \<Rightarrow> LeadType \<Rightarrow> RelationshipType \<Rightarrow> rat" where
  "spec_compliancePoints compliance leadType relationshipType =
     (of_nat (spec_passed compliance leadType relationshipType) /
      of_nat (spec_applicable leadType relationshipType)) * 70"

definition spec_buyingPoints :: "int \<Rightarrow> rat" where
  "spec_buyingPoints buyingSignals = of_int (min buyingSignals 5) * 6"

definition spec_preRejectionScore ::
  "jsval \<Rightarrow> int \<Rightarrow> LeadType \<Rightarrow> RelationshipType \<Rightarrow> int" where
  "spec_preRejectionScore compliance buyingSignals leadType relationshipType =
     min 100 (js_round (spec_compliancePoints compliance leadType relationshipType +
                        spec_buyingPoints buyingSignals))"

section \<open>The retry wrapper (services/geminiService.ts)\<close>

text \<open>\<open>s.includes(t)\<close> on strings: \<open>t\<close> occurs in \<open>s\<close> as a block.\<close>

fun string_includes :: "string \<Rightarrow> string \<Rightarrow> bool" where
  "string_includes [] t = (t = [])"
| "string_includes (c # s) t = (take (length t) (c # s) = t \<or> string_includes s t)"

text \<open>The \<open>TypeError\<close> the engine raises when the test of line 22 cannot be evaluated.\<close>

definition typeError :: jsval where
  "typeError = JObj [(''name'', JStr ''TypeError'')]"

text \<open>
  Line 22, the test \<open>isInternalError\<close> of a thrown value, as its truth value.  Reading
  \<open>err.message\<close> raises when \<open>err\<close> is \<open>null\<close> or \<open>undefined\<close>; a
  message that is \<open>null\<close> or \<open>undefined\<close> stops the optional chain; a string and
  an array have an \<open>includes\<close> method; on any other message the call raises.
\<close>

definition isInternalError :: "jsval \<Rightarrow> jsval + bool" where
  "isInternalError err =
     (if err = JUndefined \<or> err = JNull then Inl typeError
      else
        let rest = (js_get err ''status'' = JNum 500 \<or>
                    (truthy (js_get err ''error'') \<and>
                     js_get (js_get err ''error'') ''code'' = JNum 500))
        in case js_get err ''message'' of
             JUndefined \<Rightarrow> Inr rest
           | JNull \<Rightarrow> Inr rest
           | JStr s \<Rightarrow> Inr (string_includes s ''500'' \<or> rest)
           | JArr xs \<Rightarrow> Inr (JStr ''500'' \<in> set xs \<or> rest)
           | _ \<Rightarrow> Inl typeError)"

text \<open>
  The wrapped operation \<open>fn\<close> is a step on a state of the outside world: it returns
  \<open>Inr\<close> its result or \<open>Inl\<close> the value it threw, and the next state.  What
  \<open>withRetry\<close> did is returned with its outcome: the world it leaves, what each call
  of \<open>fn\<close> returned (in order) and the delays it waited (in order, milliseconds).
\<close>

record ('a, 's) retried =
  outcome :: "jsval + 'a"
  world :: 's
  attempts :: "(jsval + 'a) list"
  delays :: "int list"

function withRetry ::
  "('s \<Rightarrow> (jsval + 'a) \<times> 's) \<Rightarrow> int \<Rightarrow> 's \<Rightarrow> ('a, 's) retried" where
  "withRetry fn retries s =
     (case fn s of
        (Inr v, s') \<Rightarrow> \<lparr>outcome = Inr v, world = s', attempts = [Inr v], delays = []\<rparr>
      | (Inl err, s') \<Rightarrow>
          (case isInternalError err of
             Inl thrown \<Rightarrow>
               \<lparr>outcome = Inl thrown, world = s', attempts = [Inl err], delays = []\<rparr>
           | Inr isInternal \<Rightarrow>
               if retries > 0 \<and> isInternal
               then let delay = (4 - retries) * 2000;
                        r = withRetry fn (retries - 1) s'
                    in r\<lparr>attempts := Inl err # attempts r, delays := delay # delays r\<rparr>
               else \<lparr>outcome = Inl err, world = s', attempts = [Inl err], delays = []\<rparr>))"
  by pat_completeness auto
termination
  by (relation "measure (\<lambda>(fn, retries, s). nat retries)") auto

text \<open>The default of the parameter, \<open>retries = 3\<close>: the call of line 154 passes none.\<close>

definition defaultRetries :: int where
  "defaultRetries = 3"

text \<open>
  Two operations for the examples: one that always fails with status 500, one that
  always fails with a quota error.  The state counts the calls.
\<close>

definition always500 :: "nat \<Rightarrow> (jsval + string) \<times> nat" where
  "always500 n = (Inl (JObj [(''status'', JNum 500)]), Suc n)"

definition alwaysQuota :: "nat \<Rightarrow> (jsval + string) \<times> nat" where
  "alwaysQuota n = (Inl (JObj [(''message'', JStr ''429 quota exceeded'')]), Suc n)"

text \<open>An operation that fails with a 500 message twice and then answers.\<close>

definition failsTwice :: "nat \<Rightarrow> (jsval + string) \<times> nat" where
  "failsTwice n =
     (if n < 2 then Inl (JObj [(''message'', JStr ''got status: 500 Internal'')])
      else Inr ''answer'', Suc n)"

text \<open>What holds of every run of \<open>withRetry\<close> that starts with \<open>retries\<close> retries left.\<close>

definition retry_inv :: "int \<Rightarrow> ('a, 's) retried \<Rightarrow> bool" where
  "retry_inv retries r \<longleftrightarrow>
     length (delays r) \<le> nat retries
     \<and> length (attempts r) = length (delays r) + 1
     \<and> (\<forall>a \<in> set (butlast (attempts r)). \<exists>e. a = Inl e \<and> isInternalError e = Inr True)
     \<and> (\<forall>v. last (attempts r) = Inr v \<longrightarrow> outcome r = Inr v)
     \<and> (\<forall>e. last (attempts r) = Inl e \<and> isInternalError e = Inr False \<longrightarrow> outcome r = Inl e)"

section \<open>The HTTP endpoint (api/gemini.ts)\<close>

record request =
  req_method :: string
  req_body :: jsval

record response =
  res_status :: nat
  res_json :: jsval

text \<open>
  Two statements of the handler raise a \<open>TypeError\<close> inside the \<open>try\<close> block:
  the destructuring of a body that is \<open>null\<close> or \<open>undefined\<close> (line 13) and
  the read of \<open>text\<close> from a response that is \<open>null\<close> or \<open>undefined\<close>
  (line 31).  The wording of the message belongs to the engine that runs the program,
  not to the program; the engine is a parameter of the model and gives the message for
  the value at hand.
\<close>

record engine =
  destructureMessage :: "jsval \<Rightarrow> string"
  readMessage :: "jsval \<Rightarrow> string"

definition raisedTypeError :: "string \<Rightarrow> jsval" where
  "raisedTypeError message =
     JObj [(''name'', JStr ''TypeError''), (''message'', JStr message)]"

text \<open>Lines 33 to 38: the answer of the \<open>catch\<close> block.\<close>

definition requestFailed :: "jsval \<Rightarrow> response" where
  "requestFailed error =
     \<lparr>res_status = 500,
      res_json = JObj [(''error'', JStr ''Gemini request failed''),
                       (''details'', js_or (js_get error ''message'') (JStr ''Unknown error''))]\<rparr>"

text \<open>
  The handler, given the inference API as a function of \<open>model\<close>, \<open>contents\<close> and
  \<open>config\<close> that returns \<open>Inr\<close> the response or \<open>Inl\<close> the value it threw.
  The result is the HTTP answer and the list of calls made to the API.
\<close>

definition handler ::
  "engine \<Rightarrow> request \<Rightarrow> (jsval \<Rightarrow> jsval \<Rightarrow> jsval \<Rightarrow> jsval + jsval)
     \<Rightarrow> response \<times> (jsval \<times> jsval \<times> jsval) list" where
  "handler engine req generateContent =
     (if req_method req \<noteq> ''POST''
      then (\<lparr>res_status = 405, res_json = JObj [(''error'', JStr ''Method not allowed'')]\<rparr>, [])
      else
        (case (if req_body req = JUndefined \<or> req_body req = JNull
               then Inl (raisedTypeError (destructureMessage engine (req_body req)))
               else Inr (js_get (req_body req) ''model'', js_get (req_body req) ''contents'',
                         js_get (req_body req) ''config''))
         of
           Inl error \<Rightarrow> (requestFailed error, [])
         | Inr (model, contents, config) \<Rightarrow>
             if \<not> truthy model \<or> \<not> truthy contents
             then (\<lparr>res_status = 400,
                    res_json = JObj [(''error'', JStr ''Missing model or contents'')]\<rparr>, [])
             else
               (case generateContent model contents config of
                  Inr response \<Rightarrow>
                    if response = JUndefined \<or> response = JNull
                    then (requestFailed (raisedTypeError (readMessage engine response)),
                          [(model, contents, config)])
                    else
                      (\<lparr>res_status = 200,
                        res_json = JObj [(''text'', js_get response ''text''), (''raw'', response)]\<rparr>,
                       [(model, contents, config)])
                | Inl error \<Rightarrow> (requestFailed error, [(model, contents, config)]))))"

text \<open>An engine for the examples.\<close>

definition exampleEngine :: engine where
  "exampleEngine =
     \<lparr>destructureMessage = (\<lambda>v. ''Cannot destructure the body''),
      readMessage = (\<lambda>v. ''Cannot read the response'')\<rparr>"

section \<open>The document converter (services/firebaseService.ts)\<close>





section \<open>Lead strength (utils/leadAnalytics.ts)\<close>

text \<open>
  The fields of a call analysis that \<open>calculateLeadStrength\<close> reads, typed as in
  \<open>types.ts\<close>; \<open>metrics\<close> may be absent, as the optional chaining of the
  function allows.
\<close>

record Metrics =
  politenessScore :: rat
  activeListeningScore :: rat
  productKnowledgeScore :: rat
  empathyScore :: "rat option"
  clarityScore :: "rat option"
  persuasionScore :: "rat option"

record Compliance =
  dmVerified :: bool
  needDiscovery :: bool
  priceAdherence :: bool
  objectionHandled :: bool
  hardCloseAttempted :: bool

record CallAnalysis =
  metrics :: "Metrics option"
  compliance :: Compliance

datatype Label = Hot | Warm | Cold

record LeadStrength =
  score :: int
  label :: Label
  color :: string

text \<open>\<open>v || 0\<close> on a number that may be absent.\<close>

definition or_zero :: "rat option \<Rightarrow> rat" where
  "or_zero v = (case v of None \<Rightarrow> 0 | Some x \<Rightarrow> x)"

text \<open>
  The weights of lines 17 to 23, their names prefixed with \<open>w_\<close>; a literal is the
  binary64 value nearest to it.
\<close>

record Weights =
  w_productKnowledge :: rat
  w_persuasion :: rat
  w_activeListening :: rat
  w_discovery :: rat
  w_objectionHandled :: rat

definition weights :: Weights where
  "weights =
     \<lparr>w_productKnowledge = to_double (3 / 10),
      w_persuasion = to_double (3 / 10),
      w_activeListening = to_double (2 / 10),
      w_discovery = to_double (1 / 10),
      w_objectionHandled = to_double (1 / 10)\<rparr>"

text \<open>The four reads \<open>metrics?.field || 0\<close> of lines 26 to 29.\<close>

definition productKnowledge :: "CallAnalysis \<Rightarrow> rat" where
  "productKnowledge analysis = or_zero (map_option productKnowledgeScore (metrics analysis))"

definition persuasion :: "CallAnalysis \<Rightarrow> rat" where
  "persuasion analysis = or_zero (Option.bind (metrics analysis) persuasionScore)"

definition activeListening :: "CallAnalysis \<Rightarrow> rat" where
  "activeListening analysis = or_zero (map_option activeListeningScore (metrics analysis))"

definition clarity :: "CallAnalysis \<Rightarrow> rat" where
  "clarity analysis = or_zero (Option.bind (metrics analysis) clarityScore)"

text \<open>The argument of \<open>Math.round\<close>, lines 26 to 30, summed from left to right.\<close>

definition weightedSum :: "CallAnalysis \<Rightarrow> rat" where
  "weightedSum analysis =
     fadd
       (fadd
         (fadd
           (fadd
             (fmul (productKnowledge analysis) (w_productKnowledge weights))
             (fmul (persuasion analysis) (w_persuasion weights)))
           (fmul (activeListening analysis) (w_activeListening weights)))
         (fmul (clarity analysis) (w_discovery weights)))
       (fmul (if objectionHandled (compliance analysis) then 100 else 0)
          (w_objectionHandled weights))"

definition calculateLeadStrength :: "CallAnalysis \<Rightarrow> LeadStrength" where
  "calculateLeadStrength analysis =
     (let score = js_round (weightedSum analysis)
      in if score \<ge> 75 then \<lparr>score = score, label = Hot, color = ''#20b384''\<rparr>
         else if score \<ge> 45 then \<lparr>score = score, label = Warm, color = ''#F59E0B''\<rparr>
         else \<lparr>score = score, label = Cold, color = ''#E11D48''\<rparr>)"

text \<open>
  The weighted sum as the specification words it, in exact arithmetic: no literal and
  no operation is rounded.
\<close>

definition spec_weightedSum :: "CallAnalysis \<Rightarrow> rat" where
  "spec_weightedSum analysis =
     3 / 10 * productKnowledge analysis + 3 / 10 * persuasion analysis
     + 2 / 10 * activeListening analysis + 1 / 10 * clarity analysis
     + 1 / 10 * (if objectionHandled (compliance analysis) then 100 else 0)"

text \<open>Three analyses for the examples.\<close>

definition exampleAnalysis :: CallAnalysis where
  "exampleAnalysis =
     \<lparr>metrics = Some \<lparr>politenessScore = 90, activeListeningScore = 60,
        productKnowledgeScore = 80, empathyScore = None, clarityScore = Some 50,
        persuasionScore = Some 70\<rparr>,
      compliance = \<lparr>dmVerified = True, needDiscovery = True, priceAdherence = True,
        objectionHandled = True, hardCloseAttempted = False\<rparr>\<rparr>"

definition tieAnalysis :: CallAnalysis where
  "tieAnalysis =
     \<lparr>metrics = Some \<lparr>politenessScore = 0, activeListeningScore = 2,
        productKnowledgeScore = 0, empathyScore = None, clarityScore = Some 2,
        persuasionScore = Some 3\<rparr>,
      compliance = \<lparr>dmVerified = False, needDiscovery = False, priceAdherence = False,
        objectionHandled = False, hardCloseAttempted = False\<rparr>\<rparr>"

definition labelAnalysis :: CallAnalysis where
  "labelAnalysis =
     \<lparr>metrics = Some \<lparr>politenessScore = 0, activeListeningScore = 91,
        productKnowledgeScore = 0, empathyScore = None, clarityScore = Some 19,
        persuasionScore = Some 48\<rparr>,
      compliance = \<lparr>dmVerified = False, needDiscovery = False, priceAdherence = False,
        objectionHandled = True, hardCloseAttempted = False\<rparr>\<rparr>"

section \<open>Properties of the numbers\<close>

subsection \<open>Rounding to an integer\<close>

lemma js_round_mono: "x \<le> y \<Longrightarrow> js_round x \<le> js_round y"
  by (simp add: js_round_def floor_mono)

lemma js_round_of_int: "js_round (of_int n) = n"
  unfolding js_round_def by linarith

lemma js_round_nonneg: "0 \<le> x \<Longrightarrow> 0 \<le> js_round x"
  unfolding js_round_def by simp

lemma js_round_le: "x \<le> of_int n \<Longrightarrow> js_round x \<le> n"
  using js_round_mono [of x "of_int n"] by (simp add: js_round_of_int)

lemma js_round_numeral: "js_round (numeral n) = numeral n"
  using js_round_of_int [of "numeral n"] by simp

subsection \<open>Rounding to a binary64 value\<close>

lemma round_half_even_bounds: "\<lfloor>x\<rfloor> \<le> round_half_even x \<and> round_half_even x \<le> \<lfloor>x\<rfloor> + 1"
  by (simp add: round_half_even_def Let_def)

lemma round_half_even_of_int: "round_half_even (of_int n) = n"
  by (simp add: round_half_even_def Let_def)

lemma round_half_even_mono:
  assumes "x \<le> y"
  shows "round_half_even x \<le> round_half_even y"
proof (cases "\<lfloor>x\<rfloor> = \<lfloor>y\<rfloor>")
  case True
  with assms show ?thesis by (auto simp add: round_half_even_def Let_def)
next
  case False
  with assms have "\<lfloor>x\<rfloor> < \<lfloor>y\<rfloor>" using floor_mono [OF assms] by linarith
  then show ?thesis
    using round_half_even_bounds [of x] round_half_even_bounds [of y] by linarith
qed

text \<open>\<open>floor_log2\<close> finds the binade of a positive number, and only that one.\<close>

lemma bitlen_rat_bounds:
  assumes "0 < p"
  shows "(2::rat) powi (bitlen p - 1) \<le> of_int p \<and> of_int p < (2::rat) powi (bitlen p)"
proof -
  have b: "1 \<le> bitlen p" using assms by (simp add: bitlen_alt_def) 
  from bitlen_bounds [OF assms]
  have "2 ^ nat (bitlen p - 1) \<le> p" "p < 2 ^ nat (bitlen p)" by auto
  then have "(of_int (2 ^ nat (bitlen p - 1)) :: rat) \<le> of_int p"
    "(of_int p :: rat) < of_int (2 ^ nat (bitlen p))"
    by (simp_all only: of_int_le_iff of_int_less_iff)
  then show ?thesis using b by (simp add: power_int_nonneg_exp)
qed

lemma floor_log2_bounds:
  assumes "0 < x"
  shows "2 powi (floor_log2 x) \<le> x \<and> x < 2 powi (floor_log2 x + 1)"
proof -
  obtain p q where pq: "quotient_of x = (p, q)" by (cases "quotient_of x")
  then have q: "0 < q" and x: "x = of_int p / of_int q"
    using quotient_of_denom_pos quotient_of_div by auto
  have p: "0 < p" using assms q x by (simp add: zero_less_divide_iff)
  let ?d = "bitlen p - bitlen q"
  note bp = bitlen_rat_bounds [OF p] and bq = bitlen_rat_bounds [OF q]
  have qpos: "(0::rat) < of_int q" using q by simp
  have "x < 2 powi (bitlen p) / 2 powi (bitlen q - 1)"
  proof -
    have "x < 2 powi (bitlen p) / of_int q"
      unfolding x using bp qpos by (simp add: divide_strict_right_mono)
    also have "\<dots> \<le> 2 powi (bitlen p) / 2 powi (bitlen q - 1)"
      using bq qpos by (intro divide_left_mono mult_pos_pos) simp_all
    finally show ?thesis .
  qed
  also have "(2::rat) powi (bitlen p) / 2 powi (bitlen q - 1) = 2 powi (?d + 1)"
    using power_int_diff [of "2::rat" "bitlen p" "bitlen q - 1"] by (simp add: algebra_simps)
  finally have up: "x < 2 powi (?d + 1)" .
  have "(2::rat) powi (?d - 1) = 2 powi (bitlen p - 1) / 2 powi (bitlen q)"
    using power_int_diff [of "2::rat" "bitlen p - 1" "bitlen q"] by (simp add: algebra_simps)
  also have "\<dots> \<le> of_int p / 2 powi (bitlen q)"
    using bp by (simp add: divide_right_mono)
  also have "\<dots> \<le> x"
    unfolding x using bq qpos p by (intro divide_left_mono) simp_all
  finally have lo: "2 powi (?d - 1) \<le> x" .
  show ?thesis
  proof (cases "2 powi ?d \<le> x")
    case True
    then have "floor_log2 x = ?d" by (simp add: floor_log2_def pq)
    with True up show ?thesis by simp
  next
    case False
    then have "floor_log2 x = ?d - 1" by (simp add: floor_log2_def pq)
    with False lo show ?thesis by simp
  qed
qed

lemma two_powi_less_imp: "(2::rat) powi a < 2 powi b \<Longrightarrow> a < b"
  using power_int_increasing [of b a "2::rat"] by (cases "a < b") simp_all

lemma floor_log2_unique:
  assumes "2 powi e \<le> x" and "x < 2 powi (e + 1)"
  shows "floor_log2 x = e"
proof -
  have pos: "0 < x" using assms(1) by (meson less_le_trans zero_less_numeral zero_less_power_int)
  note b = floor_log2_bounds [OF pos]
  have "(2::rat) powi e < 2 powi (floor_log2 x + 1)" using assms(1) b by linarith
  then have 1: "e < floor_log2 x + 1" by (rule two_powi_less_imp)
  have "(2::rat) powi (floor_log2 x) < 2 powi (e + 1)" using assms(2) b by linarith
  then have 2: "floor_log2 x < e + 1" by (rule two_powi_less_imp)
  from 1 2 show ?thesis by simp
qed

lemma floor_log2_mono:
  assumes "0 < x" and "x \<le> y"
  shows "floor_log2 x \<le> floor_log2 y"
proof -
  have y: "0 < y" using assms by simp
  have "(2::rat) powi (floor_log2 x) < 2 powi (floor_log2 y + 1)"
    using floor_log2_bounds [OF assms(1)] floor_log2_bounds [OF y] assms(2) by linarith
  then have "floor_log2 x < floor_log2 y + 1" by (rule two_powi_less_imp)
  then show ?thesis by simp
qed

lemma to_double_pos:
  assumes "0 < x"
  shows "to_double x =
     of_int (round_half_even (x / 2 powi (max (floor_log2 x) (- 1022) - 52)))
       * 2 powi (max (floor_log2 x) (- 1022) - 52)"
  using assms by (simp add: to_double_def Let_def)

lemma two_powi_split: "(2::rat) powi (e + 1) = 2 ^ 53 * 2 powi (e - 52)"
proof -
  have "(2::rat) powi (53 + (e - 52)) = 2 powi 53 * 2 powi (e - 52)"
    by (rule power_int_add) simp
  then show ?thesis by (simp add: algebra_simps)
qed

lemma two_powi_split': "(2::rat) powi e = 2 ^ 52 * 2 powi (e - 52)"
proof -
  have "(2::rat) powi (52 + (e - 52)) = 2 powi 52 * 2 powi (e - 52)"
    by (rule power_int_add) simp
  then show ?thesis by simp
qed

text \<open>
  A positive number rounded at the unit of a binade at or above its own does not leave
  that binade: this carries the order across two binades.
\<close>

lemma rounded_upper:
  assumes "0 < x" and "floor_log2 x \<le> e"
  shows "of_int (round_half_even (x / 2 powi (e - 52))) * 2 powi (e - 52) \<le> (2::rat) powi (e + 1)"
proof -
  let ?u = "(2::rat) powi (e - 52)"
  have u: "0 < ?u" by simp
  have "x < 2 powi (floor_log2 x + 1)" using floor_log2_bounds [OF assms(1)] by simp
  also have "\<dots> \<le> 2 powi (e + 1)" using assms(2) by (intro power_int_increasing) simp_all
  finally have "x \<le> 2 ^ 53 * ?u" by (simp add: two_powi_split)
  then have "x / ?u \<le> of_int (2 ^ 53)" using u by (simp add: divide_le_eq)
  then have "round_half_even (x / ?u) \<le> 2 ^ 53"
    using round_half_even_mono [of "x / ?u" "of_int (2 ^ 53)"]
    by (simp only: round_half_even_of_int)
  then have "(of_int (round_half_even (x / ?u)) :: rat) \<le> of_int (2 ^ 53)"
    by (simp only: of_int_le_iff)
  then have "of_int (round_half_even (x / ?u)) * ?u \<le> of_int (2 ^ 53) * ?u"
    using u by (intro mult_right_mono) simp_all
  then show ?thesis by (simp add: two_powi_split)
qed

lemma rounded_lower:
  assumes "0 < x" and "e \<le> floor_log2 x"
  shows "(2::rat) powi e \<le> of_int (round_half_even (x / 2 powi (e - 52))) * 2 powi (e - 52)"
proof -
  let ?u = "(2::rat) powi (e - 52)"
  have u: "0 < ?u" by simp
  have "(2::rat) powi e \<le> 2 powi (floor_log2 x)"
    using assms(2) by (intro power_int_increasing) simp_all
  also have "\<dots> \<le> x" using floor_log2_bounds [OF assms(1)] by simp
  finally have "2 ^ 52 * ?u \<le> x" using two_powi_split' [of e] by simp
  then have "of_int (2 ^ 52) \<le> x / ?u" using u by (simp add: le_divide_eq)
  then have "2 ^ 52 \<le> round_half_even (x / ?u)"
    using round_half_even_mono [of "of_int (2 ^ 52)" "x / ?u"]
    by (simp only: round_half_even_of_int)
  then have "(of_int (2 ^ 52) :: rat) \<le> of_int (round_half_even (x / ?u))"
    by (simp only: of_int_le_iff)
  then have "of_int (2 ^ 52) * ?u \<le> of_int (round_half_even (x / ?u)) * ?u"
    using u by (intro mult_right_mono) simp_all
  then show ?thesis using two_powi_split' [of e] by simp
qed

lemma to_double_zero: "to_double 0 = 0"
  by (simp add: to_double_def)

lemma to_double_nonneg:
  assumes "0 \<le> x"
  shows "0 \<le> to_double x"
proof (cases "x = 0")
  case True
  then show ?thesis by (simp add: to_double_def)
next
  case False
  with assms have x: "0 < x" by simp
  have "0 \<le> x / 2 powi (max (floor_log2 x) (- 1022) - 52)" using x by simp
  then have "0 \<le> round_half_even (x / 2 powi (max (floor_log2 x) (- 1022) - 52))"
    using round_half_even_mono [of 0 "x / 2 powi (max (floor_log2 x) (- 1022) - 52)"]
      round_half_even_of_int [of 0] by simp
  then show ?thesis unfolding to_double_pos [OF x] by simp
qed

text \<open>Rounding to binary64 keeps the order.\<close>

lemma to_double_mono:
  assumes "0 \<le> x" and "x \<le> y"
  shows "to_double x \<le> to_double y"
proof (cases "x = 0")
  case True
  then show ?thesis using to_double_nonneg [of y] assms by (simp add: to_double_zero)
next
  case False
  with assms have x: "0 < x" and y: "0 < y" by simp_all
  let ?ex = "max (floor_log2 x) (- 1022)" and ?ey = "max (floor_log2 y) (- 1022)"
  have le: "?ex \<le> ?ey" using floor_log2_mono [OF x assms(2)] by linarith
  show ?thesis
  proof (cases "?ex = ?ey")
    case True
    have "x / 2 powi (?ey - 52) \<le> y / 2 powi (?ey - 52)"
      using assms(2) by (simp add: divide_right_mono)
    then have "round_half_even (x / 2 powi (?ey - 52)) \<le> round_half_even (y / 2 powi (?ey - 52))"
      by (rule round_half_even_mono)
    then have "(of_int (round_half_even (x / 2 powi (?ey - 52))) :: rat)
        \<le> of_int (round_half_even (y / 2 powi (?ey - 52)))"
      by (simp only: of_int_le_iff)
    then have "of_int (round_half_even (x / 2 powi (?ey - 52))) * 2 powi (?ey - 52)
        \<le> of_int (round_half_even (y / 2 powi (?ey - 52))) * (2::rat) powi (?ey - 52)"
      by (intro mult_right_mono) simp_all
    then show ?thesis unfolding to_double_pos [OF x] to_double_pos [OF y] True .
  next
    case False
    with le have lt: "?ex < ?ey" by linarith
    then have ey: "?ey \<le> floor_log2 y" by linarith
    have "to_double x \<le> 2 powi (?ex + 1)"
      unfolding to_double_pos [OF x] by (rule rounded_upper [OF x]) simp
    also have "\<dots> \<le> 2 powi ?ey"
    proof (rule power_int_increasing)
      show "?ex + 1 \<le> ?ey" using lt by linarith
    qed simp
    also have "\<dots> \<le> to_double y"
      unfolding to_double_pos [OF y] by (rule rounded_lower [OF y ey])
    finally show ?thesis .
  qed
qed

text \<open>Evaluating \<open>to_double\<close> once the binade of the argument is known.\<close>

lemma to_double_eval:
  assumes "2 powi e \<le> x" and "x < 2 powi (e + 1)" and "- 1022 \<le> e"
  shows "to_double x = of_int (round_half_even (x / 2 powi (e - 52))) * 2 powi (e - 52)"
proof -
  have x: "0 < x" using assms(1) by (meson less_le_trans zero_less_numeral zero_less_power_int)
  have "floor_log2 x = e" using assms(1,2) by (rule floor_log2_unique)
  then show ?thesis using assms(3) by (simp add: to_double_pos [OF x] max_def)
qed

lemma round_half_even_eval:
  assumes "of_int n - 1 / 2 < x" and "x < of_int n + 1 / 2"
  shows "round_half_even x = n"
proof -
  have "\<lfloor>x\<rfloor> = n \<or> \<lfloor>x\<rfloor> = n - 1" using assms by linarith
  then show ?thesis
  proof
    assume f: "\<lfloor>x\<rfloor> = n"
    then have "x - of_int n < 1 / 2" using assms by simp
    with f show ?thesis by (simp add: round_half_even_def Let_def)
  next
    assume f: "\<lfloor>x\<rfloor> = n - 1"
    then have "1 / 2 < x - of_int (n - 1)" using assms by simp
    with f show ?thesis by (simp add: round_half_even_def Let_def)
  qed
qed

lemma to_double_nearest:
  assumes "2 powi e \<le> x" and "x < 2 powi (e + 1)" and "- 1022 \<le> e"
    and "of_int n - 1 / 2 < x / 2 powi (e - 52)" and "x / 2 powi (e - 52) < of_int n + 1 / 2"
  shows "to_double x = of_int n * 2 powi (e - 52)"
  using to_double_eval [OF assms(1-3)] round_half_even_eval [OF assms(4,5)] by simp

lemma round_half_even_tie:
  assumes "x = of_int f + 1 / 2"
  shows "round_half_even x = (if even f then f else f + 1)"
proof -
  have "\<lfloor>x\<rfloor> = f" unfolding assms by linarith
  then show ?thesis by (simp add: round_half_even_def Let_def assms)
qed

lemma to_double_tie:
  assumes "2 powi e \<le> x" and "x < 2 powi (e + 1)" and "- 1022 \<le> e"
    and "x / 2 powi (e - 52) = of_int f + 1 / 2"
  shows "to_double x = of_int (if even f then f else f + 1) * 2 powi (e - 52)"
  using to_double_eval [OF assms(1-3)] round_half_even_tie [OF assms(4)] by simp

lemma to_double_minus: "to_double (- x) = - to_double x"
  by (simp add: to_double_def Let_def)

lemma to_double_mono_all:
  assumes "x \<le> y"
  shows "to_double x \<le> to_double y"
proof (cases "0 \<le> x")
  case True
  then show ?thesis using assms by (rule to_double_mono)
next
  case False
  then have x: "x < 0" by simp
  show ?thesis
  proof (cases "0 \<le> y")
    case True
    have "to_double x = - to_double (- x)" using to_double_minus [of "- x"] by simp
    moreover have "0 \<le> to_double (- x)" using x by (intro to_double_nonneg) simp
    ultimately show ?thesis using to_double_nonneg [OF True] by simp
  next
    case False
    then have "to_double (- y) \<le> to_double (- x)"
      using assms by (intro to_double_mono) simp_all
    then show ?thesis by (simp add: to_double_minus)
  qed
qed

subsection \<open>The error of one rounding\<close>

text \<open>Below 128 one rounding moves a number by at most \<open>2 ^ -47\<close>.\<close>

lemma round_half_even_error: "\<bar>of_int (round_half_even x) - x\<bar> \<le> 1 / 2"
proof -
  have "of_int \<lfloor>x\<rfloor> \<le> x" "x < of_int \<lfloor>x\<rfloor> + 1" by linarith+
  then show ?thesis by (auto simp add: round_half_even_def Let_def abs_le_iff)
qed

lemma to_double_error:
  assumes "0 \<le> x" and "x < 128"
  shows "\<bar>to_double x - x\<bar> \<le> 1 / 2 ^ 47"
proof (cases "x = 0")
  case True
  then show ?thesis by (simp add: to_double_zero)
next
  case False
  with assms have x: "0 < x" by simp
  define e where "e = max (floor_log2 x) (- 1022)"
  define u :: rat where "u = 2 powi (e - 52)"
  have u: "0 < u" by (simp add: u_def)
  have "(2::rat) powi (floor_log2 x) < 2 powi 7"
    using floor_log2_bounds [OF x] assms(2) by simp
  then have "floor_log2 x < 7" by (rule two_powi_less_imp)
  then have e: "e \<le> 6" by (simp add: e_def)
  have "u \<le> 2 powi (6 - 52)" unfolding u_def using e by (intro power_int_increasing) simp_all
  then have ub: "u \<le> 1 / 2 ^ 46" by (simp add: power_int_minus_divide)
  have "to_double x - x = (of_int (round_half_even (x / u)) - x / u) * u"
    using u by (simp add: to_double_pos [OF x] e_def u_def algebra_simps)
  then have "\<bar>to_double x - x\<bar> = \<bar>of_int (round_half_even (x / u)) - x / u\<bar> * u"
    using u by (simp add: abs_mult)
  also have "\<dots> \<le> 1 / 2 * u"
    using round_half_even_error [of "x / u"] u by (intro mult_right_mono) simp_all
  also have "\<dots> \<le> 1 / 2 * (1 / 2 ^ 46)" using ub by simp
  finally show ?thesis by simp
qed

text \<open>
  \<open>Math.round\<close> gives the same integer for two numbers that are close to each
  other, away from the ties.
\<close>

lemma js_round_stable:
  assumes "\<bar>y - x\<bar> \<le> d" and "of_int m + d \<le> x + 1 / 2" and "x + 1 / 2 + d < of_int m + 1"
  shows "js_round y = m \<and> js_round x = m"
proof -
  have "0 \<le> d" using assms(1) by linarith
  have "of_int m \<le> y + 1 / 2" "y + 1 / 2 < of_int m + 1" using assms by linarith+
  then have "\<lfloor>y + 1 / 2\<rfloor> = m" by (simp add: floor_unique)
  moreover have "of_int m \<le> x + 1 / 2" "x + 1 / 2 < of_int m + 1"
    using assms \<open>0 \<le> d\<close> by linarith+
  then have "\<lfloor>x + 1 / 2\<rfloor> = m" by (simp add: floor_unique)
  ultimately show ?thesis by (simp add: js_round_def)
qed

text \<open>A fraction with denominator D that is not an integer stays 1/D away from the integers.\<close>

lemma fraction_gap:
  fixes N D :: int
  assumes "0 < D" and "N mod D \<noteq> 0"
  shows "of_int (N div D) + 1 / of_int D \<le> (of_int N / of_int D :: rat)
       \<and> (of_int N / of_int D :: rat) + 1 / of_int D \<le> of_int (N div D) + 1"
proof -
  have m: "1 \<le> N mod D" "N mod D \<le> D - 1"
    using assms pos_mod_sign [of D N] pos_mod_bound [of D N] by linarith+
  have N: "N = D * (N div D) + N mod D" by simp
  have D: "(0::rat) < of_int D" using assms(1) by simp
  have "(of_int N :: rat) = of_int (D * (N div D) + N mod D)"
    by (simp only: mult_div_mod_eq)
  also have "\<dots> = of_int D * of_int (N div D) + of_int (N mod D)"
    by (simp only: of_int_add of_int_mult)
  finally have eq: "(of_int N / of_int D :: rat) = of_int (N div D) + of_int (N mod D) / of_int D"
    using D by (simp add: field_simps)
  have "(of_int 1 :: rat) \<le> of_int (N mod D)" "(of_int (N mod D) :: rat) \<le> of_int (D - 1)"
    using m by (simp_all only: of_int_le_iff)
  then have "(1::rat) \<le> of_int (N mod D)" "(of_int (N mod D) :: rat) \<le> of_int D - 1"
    by simp_all
  then have "(1 / of_int D :: rat) \<le> of_int (N mod D) / of_int D"
    "(of_int (N mod D) / of_int D :: rat) + 1 / of_int D \<le> 1"
    using D by (simp_all add: field_simps)
  then show ?thesis unfolding eq by simp
qed

lemma to_double_near:
  assumes "0 \<le> x" and "x < 128" and "eps = 1 / 2 ^ 47"
  shows "x - eps \<le> to_double x" and "to_double x \<le> x + eps"
  using to_double_error [OF assms(1,2)] unfolding assms(3) by (simp_all only: abs_le_iff) linarith+

subsection \<open>The operations of the score, in binary64 and exactly\<close>

text \<open>
  The sum of line 107, for \<open>p\<close> checks passed out of \<open>n\<close> and \<open>b\<close>
  counted buying signals: three roundings in binary64, none in exact arithmetic, and
  the same integer after \<open>Math.round\<close>, the exact sum being no tie.
\<close>

lemma base_round:
  fixes p n :: nat and b :: int
  assumes "p \<le> n" and "0 < n" and "n \<le> 5" and "0 \<le> b" and "b \<le> 5"
    and gap: "(140 * int p + 12 * int n * b + int n) mod (2 * int n) \<noteq> 0"
  shows "js_round (fadd (fmul (fdiv (of_nat p) (of_nat n)) 70) (fmul (of_int b) 6))
       = js_round (of_nat p / of_nat n * 70 + of_int b * 6)"
proof -
  define eps :: rat where "eps = 1 / 2 ^ 47"
  have eps: "0 \<le> eps" "eps \<le> 1 / 1000" by (simp_all add: eps_def)
  define q :: rat where "q = of_nat p / of_nat n"
  define q' where "q' = to_double q"
  define y' where "y' = to_double (q' * 70)"
  define B where "B = to_double (of_int b * 6)"
  define s' where "s' = to_double (y' + B)"
  define X :: rat where "X = q * 70 + of_int b * 6"
  have n: "(0::rat) < of_nat n" using assms(2) by simp
  have "(of_nat p :: rat) \<le> of_nat n" using assms(1) by simp
  then have q: "0 \<le> q" "q \<le> 1" using n by (simp_all add: q_def divide_le_eq)
  have b: "(0::rat) \<le> of_int b" "(of_int b :: rat) \<le> 5" using assms(4,5) by simp_all
  have q128: "q < 128" using q by linarith
  note e1 = to_double_near [OF q(1) q128 eps_def, folded q'_def]
  have q'0: "0 \<le> q'" unfolding q'_def using q(1) by (rule to_double_nonneg)
  have y: "0 \<le> q' * 70" "q' * 70 < 128" using e1 q q'0 eps by linarith+
  note e2 = to_double_near [OF y eps_def, folded y'_def]
  have b6: "0 \<le> of_int b * (6::rat)" "of_int b * (6::rat) < 128" using b by linarith+
  note e3 = to_double_near [OF b6 eps_def, folded B_def]
  have y'0: "0 \<le> y'" unfolding y'_def using y(1) by (rule to_double_nonneg)
  have B0: "0 \<le> B" unfolding B_def using b6(1) by (rule to_double_nonneg)
  have s: "0 \<le> y' + B" "y' + B < 128" using e1 e2 e3 q b y'0 B0 eps by linarith+
  note e4 = to_double_near [OF s eps_def, folded s'_def]
  have tot: "\<bar>s' - X\<bar> \<le> 73 * eps"
    unfolding X_def abs_le_iff using e1 e2 e3 e4 by linarith
  let ?N = "140 * int p + 12 * int n * b + int n" and ?D = "2 * int n"
  have D: "0 < ?D" using assms(2) by simp
  have X: "of_int ?N / of_int ?D = X + 1 / 2"
    using n by (simp add: X_def q_def field_simps)
  have D10: "(1 / 10 :: rat) \<le> 1 / of_int ?D"
    using assms(2,3) by (simp add: field_simps)
  note g = fraction_gap [OF D gap, unfolded X]
  have "js_round s' = ?N div ?D \<and> js_round X = ?N div ?D"
  proof (rule js_round_stable [where d = "73 * eps"])
    show "\<bar>s' - X\<bar> \<le> 73 * eps" by (rule tot)
    show "of_int (?N div ?D) + 73 * eps \<le> X + 1 / 2" using g D10 eps by linarith
    show "X + 1 / 2 + 73 * eps < of_int (?N div ?D) + 1" using g D10 eps by linarith
  qed
  then show ?thesis
    by (simp add: s'_def y'_def B_def q'_def X_def q_def fadd_def fmul_def fdiv_def)
qed

text \<open>
  The product with a penalty factor \<open>c\<close>, whose literal is the binary64 value
  \<open>c'\<close>: the same integer after \<open>Math.round\<close> when the exact product is no tie.
\<close>

lemma scale_round:
  fixes k N D :: int and c c' :: rat
  assumes "0 \<le> k" and "k \<le> 100" and "0 \<le> c'" and "c' \<le> 1"
    and c: "\<bar>c' - c\<bar> \<le> 1 / 2 ^ 54"
    and D: "0 < D" "D \<le> 20" and gap: "N mod D \<noteq> 0"
    and N: "of_int N / of_int D = of_int k * c + 1 / 2"
  shows "js_round (fmul (of_int k) c') = js_round (of_int k * c)"
proof -
  define eps :: rat where "eps = 1 / 2 ^ 47"
  have eps: "0 \<le> eps" "eps \<le> 1 / 1000" by (simp_all add: eps_def)
  define P where "P = of_int k * c'"
  define P' where "P' = to_double P"
  have k: "(0::rat) \<le> of_int k" "(of_int k :: rat) \<le> 100" using assms(1,2) by simp_all
  have "P \<le> 100 * 1" unfolding P_def using k assms(3,4) by (intro mult_mono) simp_all
  then have P: "0 \<le> P" "P < 128" using k assms(3) by (simp_all add: P_def)
  note e1 = to_double_near [OF P eps_def, folded P'_def]
  have "\<bar>P - of_int k * c\<bar> = of_int k * \<bar>c' - c\<bar>"
    using k by (simp add: P_def abs_mult flip: right_diff_distrib)
  also have "\<dots> \<le> 100 * (1 / 2 ^ 54)" using k c by (intro mult_mono) simp_all
  also have "\<dots> \<le> eps" by (simp add: eps_def)
  finally have e2: "\<bar>P - of_int k * c\<bar> \<le> eps" .
  have tot: "\<bar>P' - of_int k * c\<bar> \<le> 2 * eps"
    using e1 e2 unfolding abs_le_iff by linarith
  have D20: "(1 / 20 :: rat) \<le> 1 / of_int D" using D by (simp add: field_simps)
  note g = fraction_gap [OF D(1) gap, unfolded N]
  have "js_round P' = N div D \<and> js_round (of_int k * c) = N div D"
  proof (rule js_round_stable [where d = "2 * eps"])
    show "\<bar>P' - of_int k * c\<bar> \<le> 2 * eps" by (rule tot)
    show "of_int (N div D) + 2 * eps \<le> of_int k * c + 1 / 2" using g D20 eps by linarith
    show "of_int k * c + 1 / 2 + 2 * eps < of_int (N div D) + 1" using g D20 eps by linarith
  qed
  then show ?thesis by (simp add: P'_def P_def fmul_def)
qed

lemma c15: "hardPenalty = 5404319552844595 / 36028797018963968"
  unfolding hardPenalty_def
  by (subst to_double_nearest [of "- 3" _ 5404319552844595]) simp_all

lemma c6: "softPenalty = 5404319552844595 / 9007199254740992"
  unfolding softPenalty_def
  by (subst to_double_nearest [of "- 1" _ 5404319552844595]) simp_all

text \<open>
  15% of a score from 0 to 100 is a tie at 10, 30, 50, 70 and 90, and there the binary64
  product is the exact one.
\<close>

lemma hard_ties:
  "fmul 10 hardPenalty = 3 / 2"
  "fmul 30 hardPenalty = 9 / 2"
  "fmul 50 hardPenalty = 15 / 2"
  "fmul 70 hardPenalty = 21 / 2"
  "fmul 90 hardPenalty = 27 / 2"
  unfolding fmul_def c15
      apply (subst to_double_nearest [of 0 _ 6755399441055744]; simp)
     apply (subst to_double_nearest [of 2 _ 5066549580791808]; simp)
    apply (subst to_double_nearest [of 2 _ 8444249301319680]; simp)
   apply (subst to_double_nearest [of 3 _ 5910974510923776]; simp)
  apply (subst to_double_nearest [of 3 _ 7599824371187712]; simp)
  done

lemma hard_round:
  assumes "0 \<le> k" and "k \<le> 100"
  shows "js_round (fmul (of_int k) hardPenalty) = js_round (of_int k * (15 / 100))"
proof (cases "(3 * k + 10) mod 20 = 0")
  case True
  with assms have "k = 10 \<or> k = 30 \<or> k = 50 \<or> k = 70 \<or> k = 90" by presburger
  then show ?thesis
    by (elim disjE) (simp_all only: of_int_numeral hard_ties, simp_all add: js_round_def)
next
  case False
  show ?thesis
    unfolding c15
  proof (rule scale_round [OF assms, where N = "3 * k + 10" and D = 20])
    show "(3 * k + 10) mod 20 \<noteq> 0" by (rule False)
  qed (simp_all add: field_simps)
qed

lemma soft_round:
  assumes "0 \<le> k" and "k \<le> 100"
  shows "js_round (fmul (of_int k) softPenalty) = js_round (of_int k * (6 / 10))"
  unfolding c6
proof (rule scale_round [OF assms, where N = "6 * k + 5" and D = 10])
  show "(6 * k + 5) mod 10 \<noteq> 0" by presburger
qed (simp_all add: field_simps)

section \<open>Properties of the deterministic score\<close>

subsection \<open>The applicable checks\<close>

lemma applicableChecks_eq:
  "applicableChecks leadType relationshipType =
     (if leadType = OLD_LEAD \<or> relationshipType = CLIENT
      then [''priceAdherence'', ''objectionHandled'', ''hardCloseAttempted'']
      else [''dmVerified'', ''needDiscovery'', ''priceAdherence'', ''objectionHandled'',
            ''hardCloseAttempted''])"
  by (simp add: applicableChecks_def checklistKeys_def keysToRemove_def)

lemma length_applicableChecks:
  "length (applicableChecks leadType relationshipType) =
     (if leadType = OLD_LEAD \<or> relationshipType = CLIENT then 3 else 5)"
  by (simp add: applicableChecks_eq)

lemma distinct_applicableChecks: "distinct (applicableChecks leadType relationshipType)"
  by (simp add: applicableChecks_eq)

lemma passed_le_applicable:
  "length (passedChecks c lt rt) \<le> length (applicableChecks lt rt)"
  by (simp add: passedChecks_def)

lemma spec_passed_eq: "spec_passed c lt rt = length (passedChecks c lt rt)"
  unfolding spec_passed_def passedChecks_def
  using distinct_applicableChecks [of lt rt]
  by (metis distinct_card distinct_filter set_filter)

lemma spec_applicable_eq: "spec_applicable lt rt = length (applicableChecks lt rt)"
  unfolding spec_applicable_def by (simp add: distinct_card distinct_applicableChecks)

subsection \<open>The arithmetic of the score\<close>

lemma fmul_mono: "0 \<le> w \<Longrightarrow> a \<le> b \<Longrightarrow> fmul a w \<le> fmul b w"
  unfolding fmul_def by (intro to_double_mono_all mult_right_mono)

lemma fadd_mono: "a \<le> b \<Longrightarrow> c \<le> d \<Longrightarrow> fadd a c \<le> fadd b d"
  unfolding fadd_def by (intro to_double_mono_all add_mono)

lemma fdiv_mono: "0 \<le> n \<Longrightarrow> a \<le> b \<Longrightarrow> fdiv a n \<le> fdiv b n"
  unfolding fdiv_def by (intro to_double_mono_all divide_right_mono)

lemma double_values:
  "to_double 1 = 1" "fmul 1 70 = 70" "fmul 5 6 = 30"
  unfolding fmul_def
    apply (subst to_double_nearest [of 0 _ 4503599627370496]; simp)
   apply (subst to_double_nearest [of 6 _ 4925812092436480]; simp)
  apply (subst to_double_nearest [of 4 _ 8444249301319680]; simp)
  done

lemma percentage_bounds: "0 \<le> percentage c lt rt \<and> percentage c lt rt \<le> 70"
proof -
  let ?p = "length (passedChecks c lt rt)" and ?n = "length (applicableChecks lt rt)"
  have n: "0 < ?n" by (simp add: length_applicableChecks)
  have "(of_nat ?p :: rat) \<le> of_nat ?n" using passed_le_applicable [of c lt rt] by simp
  with n have q: "0 \<le> (of_nat ?p :: rat) / of_nat ?n" "(of_nat ?p :: rat) / of_nat ?n \<le> 1"
    by (simp_all add: divide_le_eq)
  have f: "0 \<le> fdiv (of_nat ?p) (of_nat ?n)" "fdiv (of_nat ?p) (of_nat ?n) \<le> 1"
    unfolding fdiv_def using q to_double_mono [OF q] to_double_nonneg [OF q(1)]
    by (simp_all add: double_values)
  have "0 \<le> fmul (fdiv (of_nat ?p) (of_nat ?n)) 70"
    unfolding fmul_def using f(1) by (intro to_double_nonneg) simp
  moreover have "fmul (fdiv (of_nat ?p) (of_nat ?n)) 70 \<le> fmul 1 70"
    using f(2) by (intro fmul_mono) simp_all
  ultimately show ?thesis by (simp add: percentage_def double_values)
qed

lemma percentage_mono:
  assumes "length (passedChecks c1 lt rt) \<le> length (passedChecks c2 lt rt)"
  shows "percentage c1 lt rt \<le> percentage c2 lt rt"
  unfolding percentage_def using assms by (intro fmul_mono fdiv_mono) simp_all

lemma buyingBoost_bounds:
  "buyingBoost bs \<le> 30" "0 \<le> bs \<Longrightarrow> 0 \<le> buyingBoost bs"
proof -
  have "fmul (of_int (min bs 5)) 6 \<le> fmul 5 6" by (intro fmul_mono) simp_all
  then show "buyingBoost bs \<le> 30" by (simp add: buyingBoost_def double_values)
  show "0 \<le> buyingBoost bs" if "0 \<le> bs"
    unfolding buyingBoost_def fmul_def using that by (intro to_double_nonneg) simp
qed

lemma buyingBoost_mono: "bs1 \<le> bs2 \<Longrightarrow> buyingBoost bs1 \<le> buyingBoost bs2"
  unfolding buyingBoost_def by (intro fmul_mono) simp_all

lemma preRejectionScore_alt:
  "preRejectionScore c bs lt rt =
     min 100 (js_round (fadd (percentage c lt rt) (buyingBoost bs)))"
  by (simp add: preRejectionScore_def percentage_def buyingBoost_def Let_def)

lemma preRejectionScore_mono:
  assumes "percentage c1 lt rt \<le> percentage c2 lt rt" and "bs1 \<le> bs2"
  shows "preRejectionScore c1 bs1 lt rt \<le> preRejectionScore c2 bs2 lt rt"
  unfolding preRejectionScore_alt using assms
  by (intro min.mono order_refl js_round_mono fadd_mono buyingBoost_mono)

lemma preRejectionScore_bounds:
  assumes "0 \<le> bs"
  shows "0 \<le> preRejectionScore c bs lt rt \<and> preRejectionScore c bs lt rt \<le> 100"
proof -
  have "0 \<le> fadd (percentage c lt rt) (buyingBoost bs)"
    unfolding fadd_def using percentage_bounds [of c lt rt] buyingBoost_bounds(2) [OF assms]
    by (intro to_double_nonneg) simp
  then show ?thesis by (simp add: preRejectionScore_alt js_round_nonneg)
qed

lemma penalty_nonneg: "0 \<le> hardPenalty" "0 \<le> softPenalty"
  unfolding hardPenalty_def softPenalty_def by (rule to_double_nonneg, simp)+

lemma scaled_mono:
  assumes "preRejectionScore c1 b1 lt rt \<le> preRejectionScore c2 b2 lt rt"
  shows "calculateDeterministicScore c1 b1 lt rt d \<le> calculateDeterministicScore c2 b2 lt rt d"
proof -
  have "(of_int (preRejectionScore c1 b1 lt rt) :: rat)
      \<le> of_int (preRejectionScore c2 b2 lt rt)"
    using assms by simp
  then have "fmul (of_int (preRejectionScore c1 b1 lt rt)) hardPenalty
        \<le> fmul (of_int (preRejectionScore c2 b2 lt rt)) hardPenalty"
    and "fmul (of_int (preRejectionScore c1 b1 lt rt)) softPenalty
        \<le> fmul (of_int (preRejectionScore c2 b2 lt rt)) softPenalty"
    by (intro fmul_mono penalty_nonneg; assumption)+
  then show ?thesis
    using assms by (simp add: calculateDeterministicScore_def Let_def js_round_mono)
qed

lemma score_no_rejection:
  assumes "d \<noteq> ''HardRejection''" and "d \<noteq> ''SoftRejection''"
  shows "calculateDeterministicScore c bs lt rt d = preRejectionScore c bs lt rt"
  using assms by (simp add: calculateDeterministicScore_def Let_def js_round_of_int)

lemma score_rejected:
  "calculateDeterministicScore c bs lt rt ''HardRejection'' =
     js_round (fmul (of_int (preRejectionScore c bs lt rt)) hardPenalty)"
  "calculateDeterministicScore c bs lt rt ''SoftRejection'' =
     js_round (fmul (of_int (preRejectionScore c bs lt rt)) softPenalty)"
  by (simp_all add: calculateDeterministicScore_def Let_def)

subsection \<open>The double arithmetic of the score agrees with the exact one\<close>

lemma gap3: "(140 * p + 36 * b + 3) mod 6 \<noteq> (0::int)"
  by presburger

lemma gap5: "(140 * p + 60 * b + 5) mod 10 \<noteq> (0::int)"
  by presburger

lemma base_round_checks:
  fixes p n :: nat and b :: int
  assumes "p \<le> n" and "n = 3 \<or> n = 5" and "0 \<le> b" and "b \<le> 5"
  shows "js_round (fadd (fmul (fdiv (of_nat p) (of_nat n)) 70) (fmul (of_int b) 6))
       = js_round (of_nat p / of_nat n * 70 + of_int b * 6)"
  using assms(2)
proof
  assume n: "n = 3"
  have "(140 * int p + 12 * int n * b + int n) mod (2 * int n) \<noteq> 0"
    unfolding n using gap3 [of "int p" b] by simp
  with assms(1,3,4) show ?thesis by (intro base_round) (simp_all add: n)
next
  assume n: "n = 5"
  have "(140 * int p + 12 * int n * b + int n) mod (2 * int n) \<noteq> 0"
    unfolding n using gap5 [of "int p" b] by simp
  with assms(1,3,4) show ?thesis by (intro base_round) (simp_all add: n)
qed

lemma preRejectionScore_exact:
  assumes "0 \<le> bs"
  shows "preRejectionScore c bs lt rt = spec_preRejectionScore c bs lt rt"
proof -
  have b: "0 \<le> min bs 5" "min bs 5 \<le> 5" using assms by simp_all
  have n: "length (applicableChecks lt rt) = 3 \<or> length (applicableChecks lt rt) = 5"
    by (simp add: length_applicableChecks)
  note r = base_round_checks [OF passed_le_applicable n b]
  show ?thesis
    unfolding preRejectionScore_alt percentage_def buyingBoost_def spec_preRejectionScore_def
      spec_compliancePoints_def spec_buyingPoints_def spec_passed_eq spec_applicable_eq r ..
qed

lemma score_rejected_exact:
  assumes "0 \<le> bs"
  shows "calculateDeterministicScore c bs lt rt ''HardRejection'' =
           js_round (of_int (preRejectionScore c bs lt rt) * (15 / 100))"
    and "calculateDeterministicScore c bs lt rt ''SoftRejection'' =
           js_round (of_int (preRejectionScore c bs lt rt) * (6 / 10))"
  using preRejectionScore_bounds [OF assms, of c lt rt]
  by (simp_all add: score_rejected hard_round soft_round)

text \<open>The score at two inputs of the examples below.\<close>

lemma example_scores:
  "preRejectionScore (JObj []) 1 NEW_LEAD LEAD = 6"
  "calculateDeterministicScore (JObj []) 1 NEW_LEAD LEAD ''Won'' = 6"
  "calculateDeterministicScore (JObj []) 1 NEW_LEAD LEAD ''HardRejection'' = 1"
  "calculateDeterministicScore (JObj []) 1 NEW_LEAD LEAD ''SoftRejection'' = 4"
proof -
  have "spec_compliancePoints (JObj []) NEW_LEAD LEAD + spec_buyingPoints 1 = of_int 6"
    by (simp add: spec_compliancePoints_def spec_buyingPoints_def
        spec_passed_eq spec_applicable_eq passedChecks_def applicableChecks_eq)
  then have "spec_preRejectionScore (JObj []) 1 NEW_LEAD LEAD = 6"
    unfolding spec_preRejectionScore_def by (simp add: js_round_numeral)
  then show p: "preRejectionScore (JObj []) 1 NEW_LEAD LEAD = 6"
    by (simp add: preRejectionScore_exact)
  show "calculateDeterministicScore (JObj []) 1 NEW_LEAD LEAD ''Won'' = 6"
    by (simp add: score_no_rejection p)
  have r: "js_round (of_int 6 * (15 / 100)) = 1" "js_round (of_int 6 * (6 / 10)) = 4"
    unfolding js_round_def by linarith+
  show "calculateDeterministicScore (JObj []) 1 NEW_LEAD LEAD ''HardRejection'' = 1"
    "calculateDeterministicScore (JObj []) 1 NEW_LEAD LEAD ''SoftRejection'' = 4"
    using score_rejected_exact [of 1 "JObj []" NEW_LEAD LEAD] r by (simp_all add: p)
qed

subsection \<open>The claims\<close>

text \<open>
  C1.  For every compliance value, every non-negative buying-signal count, every lead
  type, relationship type and deal outcome, the score is an integer between 0 and 100.
\<close>

theorem score_in_range:
  assumes "0 \<le> buyingSignals"
  shows "0 \<le> calculateDeterministicScore c buyingSignals lt rt d
       \<and> calculateDeterministicScore c buyingSignals lt rt d \<le> 100"
proof -
  let ?b = "preRejectionScore c buyingSignals lt rt"
  have b: "0 \<le> ?b" "?b \<le> 100" using preRejectionScore_bounds [OF assms] by auto
  then have r: "(0::rat) \<le> of_int ?b" "(of_int ?b :: rat) \<le> 100" by simp_all
  have h: "(0::rat) \<le> of_int ?b * (15 / 100)" "(of_int ?b :: rat) * (15 / 100) \<le> of_int 100"
    using r by simp_all
  have s: "(0::rat) \<le> of_int ?b * (6 / 10)" "(of_int ?b :: rat) * (6 / 10) \<le> of_int 100"
    using r by simp_all
  have "0 \<le> calculateDeterministicScore c buyingSignals lt rt ''HardRejection''"
    "calculateDeterministicScore c buyingSignals lt rt ''HardRejection'' \<le> 100"
    "0 \<le> calculateDeterministicScore c buyingSignals lt rt ''SoftRejection''"
    "calculateDeterministicScore c buyingSignals lt rt ''SoftRejection'' \<le> 100"
    unfolding score_rejected_exact [OF assms]
    by (rule js_round_nonneg [OF h(1)] js_round_le [OF h(2)]
        js_round_nonneg [OF s(1)] js_round_le [OF s(2)])+
  then show ?thesis
    using b score_no_rejection [of d c buyingSignals lt rt]
    by (cases "d = ''HardRejection''"; cases "d = ''SoftRejection''") simp_all
qed

theorem score_in_range_witness:
  "(0::int) \<le> 3
   \<and> 0 \<le> calculateDeterministicScore (JObj [(''priceAdherence'', JBool True)]) 3 OLD_LEAD LEAD ''SoftRejection''
   \<and> calculateDeterministicScore (JObj [(''priceAdherence'', JBool True)]) 3 OLD_LEAD LEAD ''SoftRejection'' \<le> 100"
  using score_in_range [of 3 "JObj [(''priceAdherence'', JBool True)]" OLD_LEAD LEAD "''SoftRejection''"]
  by simp

text \<open>
  C2.  With the lead type, the relationship type, the deal outcome and the buying-signal
  count fixed, the score does not decrease when the number of applicable checks that
  pass grows; with the compliance value fixed as well, it does not decrease when the
  buying-signal count grows.
\<close>

theorem score_monotone:
  "(length (passedChecks c1 lt rt) \<le> length (passedChecks c2 lt rt) \<longrightarrow>
      calculateDeterministicScore c1 bs lt rt d \<le> calculateDeterministicScore c2 bs lt rt d) \<and>
   (bs1 \<le> bs2 \<longrightarrow>
      calculateDeterministicScore c bs1 lt rt d \<le> calculateDeterministicScore c bs2 lt rt d)"
proof (intro conjI impI)
  assume "length (passedChecks c1 lt rt) \<le> length (passedChecks c2 lt rt)"
  then have "percentage c1 lt rt \<le> percentage c2 lt rt" by (rule percentage_mono)
  then have "preRejectionScore c1 bs lt rt \<le> preRejectionScore c2 bs lt rt"
    by (rule preRejectionScore_mono) simp
  then show "calculateDeterministicScore c1 bs lt rt d \<le> calculateDeterministicScore c2 bs lt rt d"
    by (rule scaled_mono)
next
  assume "bs1 \<le> bs2"
  then have "preRejectionScore c bs1 lt rt \<le> preRejectionScore c bs2 lt rt"
    by (intro preRejectionScore_mono) simp_all
  then show "calculateDeterministicScore c bs1 lt rt d \<le> calculateDeterministicScore c bs2 lt rt d"
    by (rule scaled_mono)
qed

theorem score_monotone_witness:
  "length (passedChecks (JObj []) NEW_LEAD LEAD)
     \<le> length (passedChecks (JObj [(''dmVerified'', JBool True)]) NEW_LEAD LEAD)
   \<and> calculateDeterministicScore (JObj []) 2 NEW_LEAD LEAD ''HardRejection''
     \<le> calculateDeterministicScore (JObj [(''dmVerified'', JBool True)]) 2 NEW_LEAD LEAD
          ''HardRejection''
   \<and> (2::int) \<le> 4
   \<and> calculateDeterministicScore (JObj [(''dmVerified'', JBool True)]) 2 NEW_LEAD LEAD
        ''HardRejection''
     \<le> calculateDeterministicScore (JObj [(''dmVerified'', JBool True)]) 4 NEW_LEAD LEAD
          ''HardRejection''"
proof -
  have p: "length (passedChecks (JObj []) NEW_LEAD LEAD)
      \<le> length (passedChecks (JObj [(''dmVerified'', JBool True)]) NEW_LEAD LEAD)"
    by (simp add: passedChecks_def applicableChecks_eq)
  have q: "(2::int) \<le> 4" by simp
  from p q
    score_monotone [of "JObj []" NEW_LEAD LEAD "JObj [(''dmVerified'', JBool True)]" 2
      "''HardRejection''" 2 4 "JObj [(''dmVerified'', JBool True)]"]
  show ?thesis by blast
qed

text \<open>
  C3, as the code has it.  Under \<open>HardRejection\<close> the score is the score of a deal
  that was not rejected multiplied by 0.15 and rounded to the nearest integer (a tie
  going up); under \<open>SoftRejection\<close> it is that score multiplied by 0.6 and rounded
  the same way; under any other outcome it is the score before the penalty, unchanged.
  For a non-negative buying-signal count the rounded products of the language are the
  exactly rounded 15% and 60%.
\<close>

theorem rejection_scaling_rounded:
  assumes "d \<noteq> ''HardRejection''" and "d \<noteq> ''SoftRejection''"
  shows "calculateDeterministicScore c bs lt rt ''HardRejection'' =
           js_round (fmul (of_int (calculateDeterministicScore c bs lt rt d)) hardPenalty)
       \<and> calculateDeterministicScore c bs lt rt ''SoftRejection'' =
           js_round (fmul (of_int (calculateDeterministicScore c bs lt rt d)) softPenalty)
       \<and> calculateDeterministicScore c bs lt rt d = preRejectionScore c bs lt rt
       \<and> (0 \<le> bs \<longrightarrow>
            calculateDeterministicScore c bs lt rt ''HardRejection'' =
              js_round (of_int (calculateDeterministicScore c bs lt rt d) * (15 / 100))
          \<and> calculateDeterministicScore c bs lt rt ''SoftRejection'' =
              js_round (of_int (calculateDeterministicScore c bs lt rt d) * (6 / 10)))"
  using score_rejected_exact [of bs c lt rt]
  by (simp add: score_no_rejection [OF assms] score_rejected)

theorem rejection_scaling_rounded_witness:
  "''Won'' \<noteq> ''HardRejection'' \<and> ''Won'' \<noteq> ''SoftRejection'' \<and> (0::int) \<le> 1
   \<and> calculateDeterministicScore (JObj []) 1 NEW_LEAD LEAD ''Won'' = 6
   \<and> calculateDeterministicScore (JObj []) 1 NEW_LEAD LEAD ''HardRejection''
       = js_round (of_int 6 * (15 / 100))
   \<and> calculateDeterministicScore (JObj []) 1 NEW_LEAD LEAD ''SoftRejection''
       = js_round (of_int 6 * (6 / 10))"
proof -
  have a: "''Won'' \<noteq> ''HardRejection''" and b: "''Won'' \<noteq> ''SoftRejection''"
    by simp_all
  have w: "calculateDeterministicScore (JObj []) 1 NEW_LEAD LEAD ''Won'' = 6"
    by (rule example_scores)
  from rejection_scaling_rounded [OF a b, of "JObj []" 1 NEW_LEAD LEAD]
  have "calculateDeterministicScore (JObj []) 1 NEW_LEAD LEAD ''HardRejection''
       = js_round (of_int 6 * (15 / 100))"
    and "calculateDeterministicScore (JObj []) 1 NEW_LEAD LEAD ''SoftRejection''
       = js_round (of_int 6 * (6 / 10))"
    unfolding w by simp_all
  with a b w show ?thesis by simp
qed

text \<open>
  C3 as the spec words it fails: with no check passed and one buying signal the score
  of a deal that was not rejected is 6, and the score under \<open>HardRejection\<close> is 1,
  which is not 15% of 6.
\<close>

theorem rejection_not_exactly_15_percent:
  "rat_of_int (calculateDeterministicScore (JObj []) 1 NEW_LEAD LEAD ''HardRejection'')
     \<noteq> (15 / 100) * rat_of_int (calculateDeterministicScore (JObj []) 1 NEW_LEAD LEAD ''Won'')"
  by (simp add: example_scores)

lemma spec_compliancePoints_bounds:
  "0 \<le> spec_compliancePoints c lt rt \<and> spec_compliancePoints c lt rt \<le> 70"
proof -
  let ?p = "length (passedChecks c lt rt)" and ?n = "length (applicableChecks lt rt)"
  have n: "0 < ?n" by (simp add: length_applicableChecks)
  have "(of_nat ?p :: rat) \<le> of_nat ?n" using passed_le_applicable [of c lt rt] by simp
  with n have "(of_nat ?p :: rat) / of_nat ?n \<le> 1" by (simp add: divide_le_eq)
  moreover have "0 \<le> (of_nat ?p :: rat) / of_nat ?n" by simp
  ultimately have "0 \<le> (of_nat ?p :: rat) / of_nat ?n * 70
      \<and> (of_nat ?p :: rat) / of_nat ?n * 70 \<le> 1 * 70"
    by (intro conjI mult_right_mono mult_nonneg_nonneg) simp_all
  then show ?thesis
    unfolding spec_compliancePoints_def spec_passed_eq spec_applicable_eq by simp
qed

text \<open>
  C4.  The score before the penalty is
  \<open>min(100, round(passed / applicable * 70 + min(buyingSignals, 5) * 6))\<close>, with
  \<open>passed\<close> the number of applicable checks that are true and \<open>applicable\<close> the
  number of applicable checks: as the language evaluates the formula for every input,
  and as exact arithmetic evaluates it for every non-negative buying-signal count.  The
  checks give between 0 and 70 points, the buying signals 6 points each up to 5 signals,
  so at most 30.
\<close>

theorem preRejectionScore_formula:
  "preRejectionScore c bs lt rt =
     min 100 (js_round (fadd
       (fmul (fdiv (of_nat (spec_passed c lt rt)) (of_nat (spec_applicable lt rt))) 70)
       (fmul (of_int (min bs 5)) 6)))
   \<and> (0 \<le> bs \<longrightarrow> preRejectionScore c bs lt rt = spec_preRejectionScore c bs lt rt)
   \<and> 0 \<le> percentage c lt rt \<and> percentage c lt rt \<le> 70
   \<and> 0 \<le> spec_compliancePoints c lt rt \<and> spec_compliancePoints c lt rt \<le> 70
   \<and> buyingBoost bs \<le> 30
   \<and> spec_buyingPoints bs = (if bs \<le> 5 then 6 * of_int bs else 30)
   \<and> spec_buyingPoints bs \<le> 30"
proof -
  have "preRejectionScore c bs lt rt =
     min 100 (js_round (fadd
       (fmul (fdiv (of_nat (spec_passed c lt rt)) (of_nat (spec_applicable lt rt))) 70)
       (fmul (of_int (min bs 5)) 6)))"
    by (simp add: preRejectionScore_alt percentage_def buyingBoost_def spec_passed_eq
        spec_applicable_eq)
  moreover have "spec_buyingPoints bs \<le> 30" by (simp add: spec_buyingPoints_def)
  moreover have "spec_buyingPoints bs = (if bs \<le> 5 then 6 * of_int bs else 30)"
    by (simp add: spec_buyingPoints_def min_def)
  ultimately show ?thesis
    using percentage_bounds [of c lt rt] spec_compliancePoints_bounds [of c lt rt]
      buyingBoost_bounds(1) [of bs] preRejectionScore_exact [of bs c lt rt]
    by simp
qed

theorem preRejectionScore_formula_witness:
  "(0::int) \<le> 3
   \<and> preRejectionScore (JObj [(''priceAdherence'', JBool True)]) 3 OLD_LEAD LEAD
       = spec_preRejectionScore (JObj [(''priceAdherence'', JBool True)]) 3 OLD_LEAD LEAD
   \<and> spec_preRejectionScore (JObj [(''priceAdherence'', JBool True)]) 3 OLD_LEAD LEAD = 41"
proof -
  have x: "spec_compliancePoints (JObj [(''priceAdherence'', JBool True)]) OLD_LEAD LEAD
      + spec_buyingPoints 3 = 124 / 3"
    by (simp add: spec_compliancePoints_def spec_buyingPoints_def
        spec_passed_eq spec_applicable_eq passedChecks_def applicableChecks_eq)
  have r: "js_round (124 / 3) = 41" unfolding js_round_def by linarith
  have s: "spec_preRejectionScore (JObj [(''priceAdherence'', JBool True)]) 3
      OLD_LEAD LEAD = 41"
    unfolding spec_preRejectionScore_def x r by simp
  have h: "(0::int) \<le> 3" by simp
  from preRejectionScore_formula [of "JObj [(''priceAdherence'', JBool True)]" 3 OLD_LEAD LEAD] h
  have "preRejectionScore (JObj [(''priceAdherence'', JBool True)]) 3 OLD_LEAD LEAD
       = spec_preRejectionScore (JObj [(''priceAdherence'', JBool True)]) 3 OLD_LEAD LEAD"
    by blast
  with s h show ?thesis by simp
qed

text \<open>
  C5.  The checklist is reduced to \<open>priceAdherence\<close>, \<open>objectionHandled\<close> and
  \<open>hardCloseAttempted\<close> exactly when the lead type is \<open>OLD_LEAD\<close> or the
  relationship type is \<open>CLIENT\<close>; otherwise all five checks count.  The two dropped
  checks are \<open>dmVerified\<close> and \<open>needDiscovery\<close>, and they leave the passed count
  with the denominator: a passed check is always an applicable one.
\<close>

theorem applicable_checks_by_lead:
  "applicableChecks lt rt =
     (if lt = OLD_LEAD \<or> rt = CLIENT
      then [''priceAdherence'', ''objectionHandled'', ''hardCloseAttempted'']
      else [''dmVerified'', ''needDiscovery'', ''priceAdherence'', ''objectionHandled'',
            ''hardCloseAttempted''])
   \<and> (applicableChecks lt rt = [''priceAdherence'', ''objectionHandled'', ''hardCloseAttempted'']
        \<longleftrightarrow> lt = OLD_LEAD \<or> rt = CLIENT)
   \<and> set checklistKeys - set (applicableChecks lt rt) =
        (if lt = OLD_LEAD \<or> rt = CLIENT then {''dmVerified'', ''needDiscovery''} else {})
   \<and> set (passedChecks c lt rt) \<subseteq> set (applicableChecks lt rt)"
proof -
  have "set checklistKeys - set (applicableChecks lt rt) =
        (if lt = OLD_LEAD \<or> rt = CLIENT then {''dmVerified'', ''needDiscovery''} else {})"
    by (auto simp add: applicableChecks_eq checklistKeys_def)
  moreover have "set (passedChecks c lt rt) \<subseteq> set (applicableChecks lt rt)"
    by (simp add: passedChecks_def)
  ultimately show ?thesis by (simp add: applicableChecks_eq)
qed

text \<open>
  C10.  The list of applicable checks has 3 elements for an \<open>OLD_LEAD\<close> lead or a
  \<open>CLIENT\<close> relationship and 5 otherwise; it is never empty, so the passed count is
  never divided by zero.
\<close>

theorem applicable_checks_nonempty:
  "length (applicableChecks lt rt) = (if lt = OLD_LEAD \<or> rt = CLIENT then 3 else 5)
   \<and> applicableChecks lt rt \<noteq> []
   \<and> rat_of_nat (length (applicableChecks lt rt)) \<noteq> 0"
  by (simp add: applicableChecks_eq)

section \<open>Properties of the retry wrapper\<close>

declare withRetry.simps [simp del]

lemma withRetry_success:
  "fn s = (Inr v, s') \<Longrightarrow>
   withRetry fn retries s = \<lparr>outcome = Inr v, world = s', attempts = [Inr v], delays = []\<rparr>"
  by (subst withRetry.simps) simp

lemma withRetry_rethrow:
  "fn s = (Inl e, s') \<Longrightarrow> isInternalError e = Inr False \<Longrightarrow>
   withRetry fn retries s = \<lparr>outcome = Inl e, world = s', attempts = [Inl e], delays = []\<rparr>"
  by (subst withRetry.simps) simp

lemma withRetry_exhausted:
  "fn s = (Inl e, s') \<Longrightarrow> isInternalError e = Inr b \<Longrightarrow> retries \<le> 0 \<Longrightarrow>
   withRetry fn retries s = \<lparr>outcome = Inl e, world = s', attempts = [Inl e], delays = []\<rparr>"
  by (subst withRetry.simps) simp

lemma withRetry_test_raises:
  "fn s = (Inl e, s') \<Longrightarrow> isInternalError e = Inl t \<Longrightarrow>
   withRetry fn retries s = \<lparr>outcome = Inl t, world = s', attempts = [Inl e], delays = []\<rparr>"
  by (subst withRetry.simps) simp

lemma withRetry_retry:
  "fn s = (Inl e, s') \<Longrightarrow> isInternalError e = Inr True \<Longrightarrow> 0 < retries \<Longrightarrow>
   withRetry fn retries s =
     (withRetry fn (retries - 1) s')
       \<lparr>attempts := Inl e # attempts (withRetry fn (retries - 1) s'),
        delays := (4 - retries) * 2000 # delays (withRetry fn (retries - 1) s')\<rparr>"
  by (subst withRetry.simps) (simp add: Let_def)

lemma withRetry_inv: "retry_inv retries (withRetry fn retries s)"
proof (induction fn retries s rule: withRetry.induct)
  case (1 fn retries s)
  obtain x s' where fs: "fn s = (x, s')" by (cases "fn s")
  show ?case
  proof (cases x)
    case (Inr v)
    with fs show ?thesis by (simp add: withRetry_success retry_inv_def)
  next
    case (Inl e)
    note fe = fs [unfolded Inl]
    show ?thesis
    proof (cases "isInternalError e")
      case (Inl t)
      with fe show ?thesis by (simp add: withRetry_test_raises retry_inv_def)
    next
      case (Inr b)
      show ?thesis
      proof (cases "0 < retries \<and> b")
        case False
        then have "withRetry fn retries s =
            \<lparr>outcome = Inl e, world = s', attempts = [Inl e], delays = []\<rparr>"
          using fe Inr by (subst withRetry.simps) auto
        then show ?thesis by (simp add: retry_inv_def)
      next
        case True
        then have b: "isInternalError e = Inr True" and pos: "0 < retries" using Inr by auto
        have IH: "retry_inv (retries - 1) (withRetry fn (retries - 1) s')"
          using "1.IH" [OF fe [symmetric] refl b _ refl] pos by simp
        let ?r = "withRetry fn (retries - 1) s'"
        have ne: "attempts ?r \<noteq> []" using IH by (auto simp: retry_inv_def)
        have step: "withRetry fn retries s =
            ?r\<lparr>attempts := Inl e # attempts ?r, delays := (4 - retries) * 2000 # delays ?r\<rparr>"
          using fe b pos by (rule withRetry_retry)
        have n: "nat (retries - 1) + 1 = nat retries" using pos by simp
        from IH ne b n show ?thesis
          unfolding step retry_inv_def by auto
      qed
    qed
  qed
qed

text \<open>
  C6, as the code has it.  A run that starts with \<open>retries\<close> retries left (3 by
  default) retries at most \<open>retries\<close> times, so it calls the operation at most
  \<open>retries + 1\<close> times, waiting once before each retry.  Every call but the last
  failed with an error that the test of line 22 identifies as a 500 error.  An error
  that the test finds not to be one is rethrown at once, with no retry and no delay, and
  a result is returned as the operation gave it.
\<close>

theorem withRetry_bounded:
  "length (delays (withRetry fn retries s)) \<le> nat retries
   \<and> length (attempts (withRetry fn retries s)) = length (delays (withRetry fn retries s)) + 1
   \<and> (\<forall>a \<in> set (butlast (attempts (withRetry fn retries s))).
         \<exists>e. a = Inl e \<and> isInternalError e = Inr True)
   \<and> (\<forall>e s'. fn s = (Inl e, s') \<and> isInternalError e = Inr False \<longrightarrow>
         withRetry fn retries s =
           \<lparr>outcome = Inl e, world = s', attempts = [Inl e], delays = []\<rparr>)
   \<and> (\<forall>v s'. fn s = (Inr v, s') \<longrightarrow>
         withRetry fn retries s =
           \<lparr>outcome = Inr v, world = s', attempts = [Inr v], delays = []\<rparr>)
   \<and> (\<forall>v. last (attempts (withRetry fn retries s)) = Inr v \<longrightarrow>
         outcome (withRetry fn retries s) = Inr v)
   \<and> (\<forall>e. last (attempts (withRetry fn retries s)) = Inl e \<and> isInternalError e = Inr False \<longrightarrow>
         outcome (withRetry fn retries s) = Inl e)"
  using withRetry_inv [of retries fn s]
  by (simp add: retry_inv_def withRetry_rethrow withRetry_success)

theorem withRetry_bounded_witness:
  "length (delays (withRetry failsTwice 3 0)) \<le> nat 3
   \<and> last (attempts (withRetry failsTwice 3 0)) = Inr ''answer''
   \<and> outcome (withRetry failsTwice 3 0) = Inr ''answer''
   \<and> alwaysQuota 0 = (Inl (JObj [(''message'', JStr ''429 quota exceeded'')]), 1)
   \<and> isInternalError (JObj [(''message'', JStr ''429 quota exceeded'')]) = Inr False
   \<and> withRetry alwaysQuota 3 0 =
       \<lparr>outcome = Inl (JObj [(''message'', JStr ''429 quota exceeded'')]), world = 1,
        attempts = [Inl (JObj [(''message'', JStr ''429 quota exceeded'')])], delays = []\<rparr>"
proof -
  have l: "last (attempts (withRetry failsTwice 3 0)) = Inr ''answer''"
    by (simp add: withRetry.simps failsTwice_def isInternalError_def)
  have q: "alwaysQuota 0 = (Inl (JObj [(''message'', JStr ''429 quota exceeded'')]), 1)"
    by (simp add: alwaysQuota_def)
  have i: "isInternalError (JObj [(''message'', JStr ''429 quota exceeded'')]) = Inr False"
    by (simp add: isInternalError_def)
  from withRetry_bounded [of failsTwice 3 0] l
  have a: "length (delays (withRetry failsTwice 3 0)) \<le> nat 3"
    and b: "outcome (withRetry failsTwice 3 0) = Inr ''answer''"
    by blast+
  from withRetry_bounded [of alwaysQuota 3 0] q i
  have c: "withRetry alwaysQuota 3 0 =
       \<lparr>outcome = Inl (JObj [(''message'', JStr ''429 quota exceeded'')]), world = 1,
        attempts = [Inl (JObj [(''message'', JStr ''429 quota exceeded'')])], delays = []\<rparr>"
    by blast
  from a b c l q i show ?thesis by blast
qed

text \<open>
  C6 as the spec words it fails: an operation that keeps failing with status 500 is
  retried three times under the default, after 2, 4 and 6 seconds, and so called four
  times.
\<close>

theorem withRetry_three_retries:
  "\<not> length (delays (withRetry always500 defaultRetries 0)) \<le> 1
   \<and> delays (withRetry always500 defaultRetries 0) = [2000, 4000, 6000]
   \<and> length (attempts (withRetry always500 defaultRetries 0)) = 4"
  by (simp add: withRetry.simps always500_def defaultRetries_def isInternalError_def)

section \<open>Properties of the HTTP endpoint\<close>

text \<open>
  C7 at a \<open>POST\<close> request that carries no body (\<open>req.body\<close> is
  \<open>undefined\<close> or \<open>null\<close>): the destructuring of line 13 raises inside the
  \<open>try\<close> block, so the answer is status 500 with the text of the \<open>catch\<close>
  block and the engine's message as details, not status 400; the inference API is not
  called.
\<close>

theorem handler_absent_body:
  "handler engine \<lparr>req_method = ''POST'', req_body = JUndefined\<rparr> generateContent =
     (\<lparr>res_status = 500,
       res_json = JObj [(''error'', JStr ''Gemini request failed''),
                        (''details'', js_or (JStr (destructureMessage engine JUndefined))
                                         (JStr ''Unknown error''))]\<rparr>, [])
   \<and> handler engine \<lparr>req_method = ''POST'', req_body = JNull\<rparr> generateContent =
     (\<lparr>res_status = 500,
       res_json = JObj [(''error'', JStr ''Gemini request failed''),
                        (''details'', js_or (JStr (destructureMessage engine JNull))
                                         (JStr ''Unknown error''))]\<rparr>, [])"
  by (simp add: handler_def requestFailed_def raisedTypeError_def)

theorem handler_absent_body_witness:
  "res_status (fst (handler exampleEngine \<lparr>req_method = ''POST'', req_body = JUndefined\<rparr>
      (\<lambda>model contents config. Inr (JObj [(''text'', JStr ''hello'')])))) = 500
   \<and> js_get (res_json (fst (handler exampleEngine \<lparr>req_method = ''POST'', req_body = JUndefined\<rparr>
      (\<lambda>model contents config. Inr (JObj [(''text'', JStr ''hello'')]))))) ''error''
       = JStr ''Gemini request failed''
   \<and> snd (handler exampleEngine \<lparr>req_method = ''POST'', req_body = JUndefined\<rparr>
      (\<lambda>model contents config. Inr (JObj [(''text'', JStr ''hello'')]))) = []
   \<and> res_status (fst (handler exampleEngine \<lparr>req_method = ''POST'', req_body = JNull\<rparr>
      (\<lambda>model contents config. Inr (JObj [(''text'', JStr ''hello'')])))) = 500
   \<and> snd (handler exampleEngine \<lparr>req_method = ''POST'', req_body = JNull\<rparr>
      (\<lambda>model contents config. Inr (JObj [(''text'', JStr ''hello'')]))) = []"
  using handler_absent_body [of exampleEngine
      "\<lambda>model contents config. Inr (JObj [(''text'', JStr ''hello'')])"]
  by simp

text \<open>
  What the handler does on every other request: 405 for a method other than \<open>POST\<close>,
  400 for a body without a truthy \<open>model\<close> or \<open>contents\<close>, and otherwise one
  call of the inference API, answered with 200 and the text of the response, or with
  500 and the details when the call fails or gives no response to read.
\<close>

lemma handler_cases:
  "(req_method req \<noteq> ''POST'' \<longrightarrow>
      res_status (fst (handler engine req api)) = 405 \<and> snd (handler engine req api) = [])
   \<and> (req_method req = ''POST'' \<and> req_body req \<noteq> JUndefined \<and> req_body req \<noteq> JNull \<and>
       (\<not> truthy (js_get (req_body req) ''model'') \<or> \<not> truthy (js_get (req_body req) ''contents'')) \<longrightarrow>
      res_status (fst (handler engine req api)) = 400 \<and> snd (handler engine req api) = [])
   \<and> (req_method req = ''POST'' \<and> truthy (js_get (req_body req) ''model'') \<and>
       truthy (js_get (req_body req) ''contents'') \<longrightarrow>
      snd (handler engine req api) =
        [(js_get (req_body req) ''model'', js_get (req_body req) ''contents'',
          js_get (req_body req) ''config'')]
      \<and> (\<forall>response. api (js_get (req_body req) ''model'') (js_get (req_body req) ''contents'')
                        (js_get (req_body req) ''config'') = Inr response
                      \<and> response \<noteq> JUndefined \<and> response \<noteq> JNull \<longrightarrow>
            fst (handler engine req api) =
              \<lparr>res_status = 200,
               res_json = JObj [(''text'', js_get response ''text''), (''raw'', response)]\<rparr>)
      \<and> (\<forall>response. api (js_get (req_body req) ''model'') (js_get (req_body req) ''contents'')
                        (js_get (req_body req) ''config'') = Inr response
                      \<and> (response = JUndefined \<or> response = JNull) \<longrightarrow>
            fst (handler engine req api) =
              \<lparr>res_status = 500,
               res_json = JObj [(''error'', JStr ''Gemini request failed''),
                                (''details'', js_or (JStr (readMessage engine response))
                                                 (JStr ''Unknown error''))]\<rparr>)
      \<and> (\<forall>error. api (js_get (req_body req) ''model'') (js_get (req_body req) ''contents'')
                        (js_get (req_body req) ''config'') = Inl error \<longrightarrow>
            fst (handler engine req api) =
              \<lparr>res_status = 500,
               res_json = JObj [(''error'', JStr ''Gemini request failed''),
                                (''details'', js_or (js_get error ''message'') (JStr ''Unknown error''))]\<rparr>))"
  by (auto simp add: handler_def requestFailed_def raisedTypeError_def split: sum.splits)

section \<open>Properties of the document converter\<close>








section \<open>Properties of the lead strength\<close>

lemma w3: "to_double (3 / 10) = 5404319552844595 / 18014398509481984"
  by (subst to_double_nearest [of "- 2" _ 5404319552844595]) simp_all

lemma w2: "to_double (2 / 10) = 3602879701896397 / 18014398509481984"
  by (subst to_double_nearest [of "- 3" _ 7205759403792794]) simp_all

lemma w1: "to_double (1 / 10) = 3602879701896397 / 36028797018963968"
  by (subst to_double_nearest [of "- 4" _ 7205759403792794]) simp_all

lemma w_nonneg:
  "0 \<le> to_double (3 / 10)" "0 \<le> to_double (2 / 10)" "0 \<le> to_double (1 / 10)"
  by (rule to_double_nonneg, simp)+

lemma max3: "fmul 100 (to_double (3 / 10)) = 30"
  unfolding fmul_def w3
  by (subst to_double_nearest [of 4 _ 8444249301319680]) simp_all

lemma max2: "fmul 100 (to_double (2 / 10)) = 20"
  unfolding fmul_def w2
  by (subst to_double_nearest [of 4 _ 5629499534213120]) simp_all

lemma max1: "fmul 100 (to_double (1 / 10)) = 10"
  unfolding fmul_def w1
  by (subst to_double_nearest [of 3 _ 5629499534213120]) simp_all

lemma zero1: "fmul 0 w = 0"
  by (simp add: fmul_def to_double_zero)

lemma d60: "fadd 30 30 = 60"
  unfolding fadd_def
  by (subst to_double_nearest [of 5 _ 8444249301319680]) simp_all

lemma d80: "fadd 60 20 = 80"
  unfolding fadd_def
  by (subst to_double_nearest [of 6 _ 5629499534213120]) simp_all

lemma d90: "fadd 80 10 = 90"
  unfolding fadd_def
  by (subst to_double_nearest [of 6 _ 6333186975989760]) simp_all

lemma d100: "fadd 90 10 = 100"
  unfolding fadd_def
  by (subst to_double_nearest [of 6 _ 7036874417766400]) simp_all

lemma fmul_bounds:
  assumes "0 \<le> a \<and> a \<le> 100" and "0 \<le> w"
  shows "0 \<le> fmul a w \<and> fmul a w \<le> fmul 100 w"
  unfolding fmul_def using assms
  by (intro conjI to_double_nonneg to_double_mono mult_nonneg_nonneg mult_right_mono) simp_all

lemma fadd_bounds:
  assumes "0 \<le> a \<and> a \<le> A" and "0 \<le> b \<and> b \<le> B"
  shows "0 \<le> fadd a b \<and> fadd a b \<le> fadd A B"
  unfolding fadd_def using assms
  by (intro conjI to_double_nonneg to_double_mono add_nonneg_nonneg add_mono) simp_all

lemma weightedSum_bounds:
  assumes "0 \<le> productKnowledge a \<and> productKnowledge a \<le> 100"
    and "0 \<le> persuasion a \<and> persuasion a \<le> 100"
    and "0 \<le> activeListening a \<and> activeListening a \<le> 100"
    and "0 \<le> clarity a \<and> clarity a \<le> 100"
  shows "0 \<le> weightedSum a \<and> weightedSum a \<le> 100"
proof -
  let ?oh = "if objectionHandled (compliance a) then 100 else (0::rat)"
  have oh: "0 \<le> ?oh \<and> ?oh \<le> 100" by simp
  note t1 = fmul_bounds [OF assms(1) w_nonneg(1), unfolded max3]
  note t2 = fmul_bounds [OF assms(2) w_nonneg(1), unfolded max3]
  note t3 = fmul_bounds [OF assms(3) w_nonneg(2), unfolded max2]
  note t4 = fmul_bounds [OF assms(4) w_nonneg(3), unfolded max1]
  note t5 = fmul_bounds [OF oh w_nonneg(3), unfolded max1]
  note s1 = fadd_bounds [OF t1 t2, unfolded d60]
  note s2 = fadd_bounds [OF s1 t3, unfolded d80]
  note s3 = fadd_bounds [OF s2 t4, unfolded d90]
  note s4 = fadd_bounds [OF s3 t5, unfolded d100]
  show ?thesis
    unfolding weightedSum_def weights_def using s4 by simp
qed

text \<open>
  The sum of lines 26 to 30 takes nine roundings in binary64, and its three weights are
  rounded literals; for scores between 0 and 100 it stays within \<open>2 ^ -43\<close> of the
  exact weighted sum.
\<close>

lemma weightedSum_error:
  assumes "0 \<le> productKnowledge a \<and> productKnowledge a \<le> 100"
    and "0 \<le> persuasion a \<and> persuasion a \<le> 100"
    and "0 \<le> activeListening a \<and> activeListening a \<le> 100"
    and "0 \<le> clarity a \<and> clarity a \<le> 100"
  shows "\<bar>weightedSum a - spec_weightedSum a\<bar> \<le> 1 / 2 ^ 43"
proof -
  define eps :: rat where "eps = 1 / 2 ^ 47"
  define P where "P = productKnowledge a"
  define Q where "Q = persuasion a"
  define L where "L = activeListening a"
  define C where "C = clarity a"
  define H :: rat where "H = (if objectionHandled (compliance a) then 100 else 0)"
  define W3 :: rat where "W3 = 5404319552844595 / 18014398509481984"
  define W2 :: rat where "W2 = 3602879701896397 / 18014398509481984"
  define W1 :: rat where "W1 = 3602879701896397 / 36028797018963968"
  define t1 where "t1 = to_double (P * W3)"
  define t2 where "t2 = to_double (Q * W3)"
  define t3 where "t3 = to_double (L * W2)"
  define t4 where "t4 = to_double (C * W1)"
  define t5 where "t5 = to_double (H * W1)"
  define s1 where "s1 = to_double (t1 + t2)"
  define s2 where "s2 = to_double (s1 + t3)"
  define s3 where "s3 = to_double (s2 + t4)"
  define s4 where "s4 = to_double (s3 + t5)"
  have r: "0 \<le> P" "P \<le> 100" "0 \<le> Q" "Q \<le> 100" "0 \<le> L" "L \<le> 100" "0 \<le> C" "C \<le> 100"
    "0 \<le> H" "H \<le> 100"
    using assms by (simp_all add: P_def Q_def L_def C_def H_def)
  have p1: "0 \<le> P * W3" "P * W3 < 128" using r unfolding W3_def by linarith+
  have p2: "0 \<le> Q * W3" "Q * W3 < 128" using r unfolding W3_def by linarith+
  have p3: "0 \<le> L * W2" "L * W2 < 128" using r unfolding W2_def by linarith+
  have p4: "0 \<le> C * W1" "C * W1 < 128" using r unfolding W1_def by linarith+
  have p5: "0 \<le> H * W1" "H * W1 < 128" using r unfolding W1_def by linarith+
  note e1 = to_double_near [OF p1 eps_def, folded t1_def]
  note e2 = to_double_near [OF p2 eps_def, folded t2_def]
  note e3 = to_double_near [OF p3 eps_def, folded t3_def]
  note e4 = to_double_near [OF p4 eps_def, folded t4_def]
  note e5 = to_double_near [OF p5 eps_def, folded t5_def]
  have n: "0 \<le> t1" "0 \<le> t2" "0 \<le> t3" "0 \<le> t4" "0 \<le> t5"
    unfolding t1_def t2_def t3_def t4_def t5_def
    by (rule to_double_nonneg, fact)+
  have eps: "0 \<le> eps" "eps \<le> 1 / 1000" by (simp_all add: eps_def)
  have q1: "0 \<le> t1 + t2" "t1 + t2 < 128"
    using n e1 e2 r eps unfolding W3_def by linarith+
  note f1 = to_double_near [OF q1 eps_def, folded s1_def]
  have n1: "0 \<le> s1" unfolding s1_def using q1(1) by (rule to_double_nonneg)
  have q2: "0 \<le> s1 + t3" "s1 + t3 < 128"
    using n n1 e1 e2 e3 f1 r eps unfolding W3_def W2_def by linarith+
  note f2 = to_double_near [OF q2 eps_def, folded s2_def]
  have n2: "0 \<le> s2" unfolding s2_def using q2(1) by (rule to_double_nonneg)
  have q3: "0 \<le> s2 + t4" "s2 + t4 < 128"
    using n n2 e1 e2 e3 e4 f1 f2 r eps unfolding W3_def W2_def W1_def by linarith+
  note f3 = to_double_near [OF q3 eps_def, folded s3_def]
  have n3: "0 \<le> s3" unfolding s3_def using q3(1) by (rule to_double_nonneg)
  have q4: "0 \<le> s3 + t5" "s3 + t5 < 128"
    using n n3 e1 e2 e3 e4 e5 f1 f2 f3 r eps unfolding W3_def W2_def W1_def by linarith+
  note f4 = to_double_near [OF q4 eps_def, folded s4_def]
  have ws: "weightedSum a = s4"
    by (simp only: weightedSum_def weights_def Weights.simps fmul_def fadd_def w3 w2 w1
        s4_def s3_def s2_def s1_def t1_def t2_def t3_def t4_def t5_def
        P_def Q_def L_def C_def H_def W3_def W2_def W1_def)
  have sp: "spec_weightedSum a = 3 / 10 * P + 3 / 10 * Q + 2 / 10 * L + 1 / 10 * C + 1 / 10 * H"
    by (simp only: spec_weightedSum_def P_def Q_def L_def C_def H_def)
  define dl :: rat where "dl = 1 / 2 ^ 46"
  have e: "eps = 1 / 140737488355328" "dl = 1 / 70368744177664"
    by (simp_all add: eps_def dl_def)
  have g1: "3 / 10 * P - dl \<le> t1" "t1 \<le> 3 / 10 * P + dl"
    using e1 r(1,2) unfolding W3_def e by linarith+
  have g2: "3 / 10 * Q - dl \<le> t2" "t2 \<le> 3 / 10 * Q + dl"
    using e2 r(3,4) unfolding W3_def e by linarith+
  have g3: "2 / 10 * L - dl \<le> t3" "t3 \<le> 2 / 10 * L + dl"
    using e3 r(5,6) unfolding W2_def e by linarith+
  have g4: "1 / 10 * C - dl \<le> t4" "t4 \<le> 1 / 10 * C + dl"
    using e4 r(7,8) unfolding W1_def e by linarith+
  have g5: "1 / 10 * H - dl \<le> t5" "t5 \<le> 1 / 10 * H + dl"
    using e5 r(9,10) unfolding W1_def e by linarith+
  have h1: "3 / 10 * P + 3 / 10 * Q - (2 * dl + eps) \<le> s1"
    "s1 \<le> 3 / 10 * P + 3 / 10 * Q + (2 * dl + eps)"
    using g1 g2 f1 by linarith+
  have h2: "3 / 10 * P + 3 / 10 * Q + 2 / 10 * L - (3 * dl + 2 * eps) \<le> s2"
    "s2 \<le> 3 / 10 * P + 3 / 10 * Q + 2 / 10 * L + (3 * dl + 2 * eps)"
    using h1 g3 f2 by linarith+
  have h3: "3 / 10 * P + 3 / 10 * Q + 2 / 10 * L + 1 / 10 * C - (4 * dl + 3 * eps) \<le> s3"
    "s3 \<le> 3 / 10 * P + 3 / 10 * Q + 2 / 10 * L + 1 / 10 * C + (4 * dl + 3 * eps)"
    using h2 g4 f3 by linarith+
  have h4: "3 / 10 * P + 3 / 10 * Q + 2 / 10 * L + 1 / 10 * C + 1 / 10 * H - (5 * dl + 4 * eps) \<le> s4"
    "s4 \<le> 3 / 10 * P + 3 / 10 * Q + 2 / 10 * L + 1 / 10 * C + 1 / 10 * H + (5 * dl + 4 * eps)"
    using h3 g5 f4 by linarith+
  have b: "5 * dl + 4 * eps \<le> 1 / 2 ^ 43"
    by (simp add: dl_def eps_def)
  show ?thesis
    unfolding ws sp abs_le_iff using h4 b by linarith
qed

text \<open>
  So the score is within 1 of the rounded exact sum, and for integer scores it is the
  rounded exact sum unless that sum lies halfway between two integers.
\<close>

lemma tie_mod:
  fixes M :: int
  assumes "M mod 10 \<noteq> 5"
  shows "(M + 5) mod 10 \<noteq> 0" "(M + 100 + 5) mod 10 \<noteq> 0"
  using assms by presburger+

lemma js_round_shift: "js_round (x - 1) = js_round x - 1" "js_round (x + 1) = js_round x + 1"
  unfolding js_round_def by linarith+

lemma score_weightedSum: "score (calculateLeadStrength a) = js_round (weightedSum a)"
  by (simp add: calculateLeadStrength_def Let_def)

lemma leadStrength_close:
  assumes "0 \<le> productKnowledge a \<and> productKnowledge a \<le> 100"
    and "0 \<le> persuasion a \<and> persuasion a \<le> 100"
    and "0 \<le> activeListening a \<and> activeListening a \<le> 100"
    and "0 \<le> clarity a \<and> clarity a \<le> 100"
  shows "js_round (spec_weightedSum a - 1 / 2 ^ 43) \<le> score (calculateLeadStrength a)"
    and "score (calculateLeadStrength a) \<le> js_round (spec_weightedSum a + 1 / 2 ^ 43)"
    and "\<bar>score (calculateLeadStrength a) - js_round (spec_weightedSum a)\<bar> \<le> 1"
proof -
  let ?x = "spec_weightedSum a"
  define d :: rat where "d = 1 / 2 ^ 43"
  have d: "0 \<le> d" "d \<le> 1" by (simp_all add: d_def)
  have n: "?x - d \<le> weightedSum a" "weightedSum a \<le> ?x + d"
    using weightedSum_error [OF assms] unfolding d_def [symmetric] abs_le_iff by linarith+
  show lo: "js_round (?x - 1 / 2 ^ 43) \<le> score (calculateLeadStrength a)"
    unfolding score_weightedSum d_def [symmetric] using n(1) by (rule js_round_mono)
  show hi: "score (calculateLeadStrength a) \<le> js_round (?x + 1 / 2 ^ 43)"
    unfolding score_weightedSum d_def [symmetric] using n(2) by (rule js_round_mono)
  have "js_round (?x - 1) \<le> js_round (?x - d)" "js_round (?x + d) \<le> js_round (?x + 1)"
    using d by (intro js_round_mono; linarith)+
  then show "\<bar>score (calculateLeadStrength a) - js_round ?x\<bar> \<le> 1"
    using lo hi unfolding d_def [symmetric] js_round_shift by linarith
qed

lemma leadStrength_integer_scores:
  fixes p q l c :: int
  assumes "productKnowledge a = of_int p" and "persuasion a = of_int q"
    and "activeListening a = of_int l" and "clarity a = of_int c"
    and "0 \<le> p \<and> p \<le> 100" and "0 \<le> q \<and> q \<le> 100"
    and "0 \<le> l \<and> l \<le> 100" and "0 \<le> c \<and> c \<le> 100"
    and "(3 * p + 3 * q + 2 * l + c) mod 10 \<noteq> 5"
  shows "score (calculateLeadStrength a) = js_round (spec_weightedSum a)"
proof -
  define h :: int where "h = (if objectionHandled (compliance a) then 100 else 0)"
  define N where "N = 3 * p + 3 * q + 2 * l + c + h + 5"
  let ?x = "spec_weightedSum a"
  have r: "0 \<le> productKnowledge a \<and> productKnowledge a \<le> 100"
    "0 \<le> persuasion a \<and> persuasion a \<le> 100"
    "0 \<le> activeListening a \<and> activeListening a \<le> 100"
    "0 \<le> clarity a \<and> clarity a \<le> 100"
    using assms(5-8) unfolding assms(1-4) by simp_all
  have x: "of_int N / of_int 10 = ?x + 1 / 2"
    by (simp add: spec_weightedSum_def assms(1-4) N_def h_def)
  define M where "M = 3 * p + 3 * q + 2 * l + c"
  have "N = M + 5 \<or> N = M + 100 + 5" unfolding N_def M_def h_def by simp
  moreover have "M mod 10 \<noteq> 5" unfolding M_def by (rule assms(9))
  ultimately have gap: "N mod 10 \<noteq> 0" using tie_mod [of M] by auto
  note g = fraction_gap [of 10 N, OF _ gap, unfolded x]
  have "js_round (weightedSum a) = N div 10 \<and> js_round ?x = N div 10"
  proof (rule js_round_stable [where d = "1 / 2 ^ 43"])
    show "\<bar>weightedSum a - ?x\<bar> \<le> 1 / 2 ^ 43" by (rule weightedSum_error [OF r])
    have s: "(1 / 2 ^ 43 :: rat) \<le> 1 / of_int 10" by simp
    show "of_int (N div 10) + 1 / 2 ^ 43 \<le> ?x + 1 / 2" using g s by linarith
    show "?x + 1 / 2 + 1 / 2 ^ 43 < of_int (N div 10) + 1" using g s by simp
  qed
  then show ?thesis by (simp add: score_weightedSum)
qed

text \<open>
  C9, as the code has it.  For every call analysis whose four metric scores, as the
  function reads them, lie between 0 and 100, the score is an integer between 0 and
  100: the weighted sum of lines 25 to 31, with the weights 0.3, 0.3, 0.2, 0.1 and 0.1
  and with 100 or 0 for \<open>objectionHandled\<close>, evaluated from left to right in the
  binary64 arithmetic of the language and rounded.  It differs by at most 1 from the
  rounded exact weighted sum, and is equal to it when no value halfway between two
  integers lies within \<open>2 ^ -43\<close> of the exact sum; for integer scores that is
  whenever three times the product knowledge plus three times the persuasion plus
  twice the active listening plus the clarity does not end in the digit 5.  The label
  is \<open>Hot\<close> exactly from 75 on, \<open>Warm\<close> exactly from 45 to 74, and
  \<open>Cold\<close> exactly below 45.
\<close>

theorem leadStrength_spec:
  assumes "0 \<le> productKnowledge a \<and> productKnowledge a \<le> 100"
    and "0 \<le> persuasion a \<and> persuasion a \<le> 100"
    and "0 \<le> activeListening a \<and> activeListening a \<le> 100"
    and "0 \<le> clarity a \<and> clarity a \<le> 100"
  shows "0 \<le> score (calculateLeadStrength a) \<and> score (calculateLeadStrength a) \<le> 100
    \<and> score (calculateLeadStrength a) =
        js_round
          (fadd (fadd (fadd (fadd
             (fmul (productKnowledge a) (to_double (3 / 10)))
             (fmul (persuasion a) (to_double (3 / 10))))
             (fmul (activeListening a) (to_double (2 / 10))))
             (fmul (clarity a) (to_double (1 / 10))))
             (fmul (if objectionHandled (compliance a) then 100 else 0) (to_double (1 / 10))))
    \<and> \<bar>score (calculateLeadStrength a) - js_round (spec_weightedSum a)\<bar> \<le> 1
    \<and> (js_round (spec_weightedSum a - 1 / 2 ^ 43) = js_round (spec_weightedSum a + 1 / 2 ^ 43)
         \<longrightarrow> score (calculateLeadStrength a) = js_round (spec_weightedSum a))
    \<and> (\<forall>p q l c :: int.
          productKnowledge a = of_int p \<and> persuasion a = of_int q
          \<and> activeListening a = of_int l \<and> clarity a = of_int c
          \<and> (3 * p + 3 * q + 2 * l + c) mod 10 \<noteq> 5
         \<longrightarrow> score (calculateLeadStrength a) = js_round (spec_weightedSum a))
    \<and> (label (calculateLeadStrength a) = Hot \<longleftrightarrow> 75 \<le> score (calculateLeadStrength a))
    \<and> (label (calculateLeadStrength a) = Warm \<longleftrightarrow>
          45 \<le> score (calculateLeadStrength a) \<and> score (calculateLeadStrength a) < 75)
    \<and> (label (calculateLeadStrength a) = Cold \<longleftrightarrow> score (calculateLeadStrength a) < 45)"
proof -
  have s: "score (calculateLeadStrength a) = js_round (weightedSum a)"
    by (rule score_weightedSum)
  have b: "0 \<le> weightedSum a" "weightedSum a \<le> of_int 100"
    using weightedSum_bounds [OF assms] by simp_all
  have r: "0 \<le> score (calculateLeadStrength a)" "score (calculateLeadStrength a) \<le> 100"
    unfolding s
    using js_round_mono [OF b(1)] js_round_mono [OF b(2)] js_round_of_int [of 0]
    by (simp_all only: js_round_of_int of_int_0)
  have f: "score (calculateLeadStrength a) =
      js_round (fadd (fadd (fadd (fadd
             (fmul (productKnowledge a) (to_double (3 / 10)))
             (fmul (persuasion a) (to_double (3 / 10))))
             (fmul (activeListening a) (to_double (2 / 10))))
             (fmul (clarity a) (to_double (1 / 10))))
             (fmul (if objectionHandled (compliance a) then 100 else 0) (to_double (1 / 10))))"
    unfolding s by (simp add: weightedSum_def weights_def)
  note c = leadStrength_close [OF assms]
  have e: "js_round (spec_weightedSum a - 1 / 2 ^ 43) = js_round (spec_weightedSum a + 1 / 2 ^ 43)
      \<longrightarrow> score (calculateLeadStrength a) = js_round (spec_weightedSum a)"
  proof
    assume q: "js_round (spec_weightedSum a - 1 / 2 ^ 43) = js_round (spec_weightedSum a + 1 / 2 ^ 43)"
    have "js_round (spec_weightedSum a - 1 / 2 ^ 43) \<le> js_round (spec_weightedSum a)"
      "js_round (spec_weightedSum a) \<le> js_round (spec_weightedSum a + 1 / 2 ^ 43)"
      by (rule js_round_mono, simp)+
    with q c(1,2) show "score (calculateLeadStrength a) = js_round (spec_weightedSum a)"
      by linarith
  qed
  have i: "\<forall>p q l c :: int.
          productKnowledge a = of_int p \<and> persuasion a = of_int q
          \<and> activeListening a = of_int l \<and> clarity a = of_int c
          \<and> (3 * p + 3 * q + 2 * l + c) mod 10 \<noteq> 5
         \<longrightarrow> score (calculateLeadStrength a) = js_round (spec_weightedSum a)"
  proof (intro allI impI)
    fix p q l c :: int
    assume h: "productKnowledge a = of_int p \<and> persuasion a = of_int q
          \<and> activeListening a = of_int l \<and> clarity a = of_int c
          \<and> (3 * p + 3 * q + 2 * l + c) mod 10 \<noteq> 5"
    have "0 \<le> p \<and> p \<le> 100" "0 \<le> q \<and> q \<le> 100" "0 \<le> l \<and> l \<le> 100" "0 \<le> c \<and> c \<le> 100"
      using assms h by simp_all
    with h show "score (calculateLeadStrength a) = js_round (spec_weightedSum a)"
      by (intro leadStrength_integer_scores [of a p q l c]) simp_all
  qed
  have l: "(label (calculateLeadStrength a) = Hot \<longleftrightarrow> 75 \<le> score (calculateLeadStrength a))
    \<and> (label (calculateLeadStrength a) = Warm \<longleftrightarrow>
          45 \<le> score (calculateLeadStrength a) \<and> score (calculateLeadStrength a) < 75)
    \<and> (label (calculateLeadStrength a) = Cold \<longleftrightarrow> score (calculateLeadStrength a) < 45)"
    by (simp add: calculateLeadStrength_def Let_def)
  from r f c(3) e i l show ?thesis by (intro conjI) simp_all
qed

lemma ex_reads:
  "productKnowledge exampleAnalysis = 80" "persuasion exampleAnalysis = 70"
  "activeListening exampleAnalysis = 60" "clarity exampleAnalysis = 50"
  "objectionHandled (compliance exampleAnalysis) = True"
  by (simp_all add: exampleAnalysis_def productKnowledge_def persuasion_def
      activeListening_def clarity_def or_zero_def)

lemma ex_steps:
  "fmul 80 (to_double (3 / 10)) = 24"
  "fmul 70 (to_double (3 / 10)) = 21"
  "fmul 60 (to_double (2 / 10)) = 12"
  "fmul 50 (to_double (1 / 10)) = 5"
  unfolding fmul_def w3 w2 w1
     apply (subst to_double_nearest [of 4 _ 6755399441055744]; simp)
    apply (subst to_double_nearest [of 4 _ 5910974510923776]; simp)
   apply (subst to_double_nearest [of 3 _ 6755399441055744]; simp)
  apply (subst to_double_nearest [of 2 _ 5629499534213120]; simp)
  done

lemma ex_sums:
  "fadd 24 21 = 45" "fadd 45 12 = 57" "fadd 57 5 = 62" "fadd 62 10 = 72"
  unfolding fadd_def
     apply (subst to_double_nearest [of 5 _ 6333186975989760]; simp)
    apply (subst to_double_nearest [of 5 _ 8022036836253696]; simp)
   apply (subst to_double_nearest [of 5 _ 8725724278030336]; simp)
  apply (subst to_double_nearest [of 6 _ 5066549580791808]; simp)
  done

lemma example_strength:
  "calculateLeadStrength exampleAnalysis = \<lparr>score = 72, label = Warm, color = ''#F59E0B''\<rparr>"
proof -
  have "weightedSum exampleAnalysis =
      fadd (fadd (fadd (fadd (fmul 80 (to_double (3 / 10))) (fmul 70 (to_double (3 / 10))))
        (fmul 60 (to_double (2 / 10)))) (fmul 50 (to_double (1 / 10))))
        (fmul 100 (to_double (1 / 10)))"
    by (simp only: weightedSum_def weights_def ex_reads Weights.simps if_True)
  also have "\<dots> = 72"
    by (simp only: ex_steps ex_sums max1)
  finally have w: "weightedSum exampleAnalysis = 72" .
  show ?thesis
    by (simp add: calculateLeadStrength_def Let_def w js_round_numeral)
qed

lemma example_exact: "js_round (spec_weightedSum exampleAnalysis) = 72"
proof -
  have "spec_weightedSum exampleAnalysis = 72"
    by (simp add: spec_weightedSum_def ex_reads)
  then show ?thesis by (simp add: js_round_numeral)
qed

theorem leadStrength_spec_witness:
  "(0 \<le> productKnowledge exampleAnalysis \<and> productKnowledge exampleAnalysis \<le> 100)
   \<and> (0 \<le> persuasion exampleAnalysis \<and> persuasion exampleAnalysis \<le> 100)
   \<and> (0 \<le> activeListening exampleAnalysis \<and> activeListening exampleAnalysis \<le> 100)
   \<and> (0 \<le> clarity exampleAnalysis \<and> clarity exampleAnalysis \<le> 100)
   \<and> productKnowledge exampleAnalysis = of_int 80 \<and> persuasion exampleAnalysis = of_int 70
   \<and> activeListening exampleAnalysis = of_int 60 \<and> clarity exampleAnalysis = of_int 50
   \<and> (3 * 80 + 3 * 70 + 2 * 60 + 50) mod 10 \<noteq> (5::int)
   \<and> 0 \<le> score (calculateLeadStrength exampleAnalysis)
   \<and> score (calculateLeadStrength exampleAnalysis) \<le> 100
   \<and> score (calculateLeadStrength exampleAnalysis) = js_round (spec_weightedSum exampleAnalysis)
   \<and> score (calculateLeadStrength exampleAnalysis) = 72
   \<and> label (calculateLeadStrength exampleAnalysis) = Warm"
proof -
  have h: "0 \<le> productKnowledge exampleAnalysis \<and> productKnowledge exampleAnalysis \<le> 100"
    "0 \<le> persuasion exampleAnalysis \<and> persuasion exampleAnalysis \<le> 100"
    "0 \<le> activeListening exampleAnalysis \<and> activeListening exampleAnalysis \<le> 100"
    "0 \<le> clarity exampleAnalysis \<and> clarity exampleAnalysis \<le> 100"
    by (simp_all add: ex_reads)
  have g: "productKnowledge exampleAnalysis = of_int 80 \<and> persuasion exampleAnalysis = of_int 70
     \<and> activeListening exampleAnalysis = of_int 60 \<and> clarity exampleAnalysis = of_int 50
     \<and> (3 * 80 + 3 * 70 + 2 * 60 + 50) mod 10 \<noteq> (5::int)"
    by (simp add: ex_reads)
  have t: "js_round (spec_weightedSum exampleAnalysis) = 72"
    by (rule example_exact)
  from leadStrength_spec [OF h]
  have r: "0 \<le> score (calculateLeadStrength exampleAnalysis)"
    "score (calculateLeadStrength exampleAnalysis) \<le> 100"
    and i: "\<forall>p q l c :: int.
          productKnowledge exampleAnalysis = of_int p \<and> persuasion exampleAnalysis = of_int q
          \<and> activeListening exampleAnalysis = of_int l \<and> clarity exampleAnalysis = of_int c
          \<and> (3 * p + 3 * q + 2 * l + c) mod 10 \<noteq> 5
         \<longrightarrow> score (calculateLeadStrength exampleAnalysis)
               = js_round (spec_weightedSum exampleAnalysis)"
    and w: "label (calculateLeadStrength exampleAnalysis) = Warm \<longleftrightarrow>
          45 \<le> score (calculateLeadStrength exampleAnalysis)
          \<and> score (calculateLeadStrength exampleAnalysis) < 75"
    by blast+
  from i g have s: "score (calculateLeadStrength exampleAnalysis)
      = js_round (spec_weightedSum exampleAnalysis)"
    by blast
  from s t w have "score (calculateLeadStrength exampleAnalysis) = 72"
    "label (calculateLeadStrength exampleAnalysis) = Warm"
    by simp_all
  with h g r s show ?thesis by (intro conjI) simp_all
qed

text \<open>
  C9 as the spec words it fails.  With the scores 0, 3, 2 and 2 (product knowledge,
  persuasion, active listening, clarity) and \<open>objectionHandled\<close> false the weighted
  sum is 1.5 exactly, which rounds to 2, but the binary64 sum is 1.4999999999999998 and
  the function returns 1.
\<close>

lemma tie_reads:
  "productKnowledge tieAnalysis = 0" "persuasion tieAnalysis = 3"
  "activeListening tieAnalysis = 2" "clarity tieAnalysis = 2"
  "objectionHandled (compliance tieAnalysis) = False"
  by (simp_all add: tieAnalysis_def productKnowledge_def persuasion_def
      activeListening_def clarity_def or_zero_def)

lemma tie_steps:
  "fmul 3 (to_double (3 / 10)) = 2026619832316723 / 2251799813685248"
  "fmul 2 (to_double (2 / 10)) = 3602879701896397 / 9007199254740992"
  "fmul 2 (to_double (1 / 10)) = 3602879701896397 / 18014398509481984"
  unfolding fmul_def w3 w2 w1
    apply (subst to_double_tie [of "- 1" _ 8106479329266892]; simp)
   apply (subst to_double_nearest [of "- 2" _ 7205759403792794]; simp)
  apply (subst to_double_nearest [of "- 3" _ 7205759403792794]; simp)
  done

lemma tie_sums:
  "fadd 0 (2026619832316723 / 2251799813685248) = 2026619832316723 / 2251799813685248"
  "fadd (2026619832316723 / 2251799813685248) (3602879701896397 / 9007199254740992)
     = 1463669878895411 / 1125899906842624"
  "fadd (1463669878895411 / 1125899906842624) (3602879701896397 / 18014398509481984)
     = 6755399441055743 / 4503599627370496"
  "fadd (6755399441055743 / 4503599627370496) 0 = 6755399441055743 / 4503599627370496"
  unfolding fadd_def
     apply (subst to_double_nearest [of "- 1" _ 8106479329266892]; simp)
    apply (subst to_double_tie [of 0 _ 5854679515581644]; simp)
   apply (subst to_double_nearest [of 0 _ 6755399441055743]; simp)
  apply (subst to_double_nearest [of 0 _ 6755399441055743]; simp)
  done

lemma tie_strength: "weightedSum tieAnalysis = 6755399441055743 / 4503599627370496"
proof -
  have "weightedSum tieAnalysis =
      fadd (fadd (fadd (fadd (fmul 0 (to_double (3 / 10))) (fmul 3 (to_double (3 / 10))))
        (fmul 2 (to_double (2 / 10)))) (fmul 2 (to_double (1 / 10))))
        (fmul 0 (to_double (1 / 10)))"
    by (simp only: weightedSum_def weights_def tie_reads Weights.simps if_False)
  also have "\<dots> = 6755399441055743 / 4503599627370496"
    by (simp only: zero1 tie_steps tie_sums)
  finally show ?thesis .
qed

theorem leadStrength_tie:
  "(0 \<le> productKnowledge tieAnalysis \<and> productKnowledge tieAnalysis \<le> 100)
   \<and> (0 \<le> persuasion tieAnalysis \<and> persuasion tieAnalysis \<le> 100)
   \<and> (0 \<le> activeListening tieAnalysis \<and> activeListening tieAnalysis \<le> 100)
   \<and> (0 \<le> clarity tieAnalysis \<and> clarity tieAnalysis \<le> 100)
   \<and> spec_weightedSum tieAnalysis = 3 / 2
   \<and> js_round (spec_weightedSum tieAnalysis) = 2
   \<and> score (calculateLeadStrength tieAnalysis) = 1
   \<and> score (calculateLeadStrength tieAnalysis) \<noteq> js_round (spec_weightedSum tieAnalysis)"
proof -
  have x: "spec_weightedSum tieAnalysis = 3 / 2"
    by (simp add: spec_weightedSum_def tie_reads)
  have b: "js_round (spec_weightedSum tieAnalysis) = 2"
    unfolding x js_round_def by linarith
  have "score (calculateLeadStrength tieAnalysis) = js_round (weightedSum tieAnalysis)"
    by (rule score_weightedSum)
  also have "\<dots> = 1" unfolding tie_strength js_round_def by linarith
  finally have a: "score (calculateLeadStrength tieAnalysis) = 1" .
  have c: "score (calculateLeadStrength tieAnalysis) \<noteq> js_round (spec_weightedSum tieAnalysis)"
    unfolding a b by simp
  have h: "0 \<le> productKnowledge tieAnalysis \<and> productKnowledge tieAnalysis \<le> 100"
    "0 \<le> persuasion tieAnalysis \<and> persuasion tieAnalysis \<le> 100"
    "0 \<le> activeListening tieAnalysis \<and> activeListening tieAnalysis \<le> 100"
    "0 \<le> clarity tieAnalysis \<and> clarity tieAnalysis \<le> 100"
    by (simp_all add: tie_reads)
  from h x b a c show ?thesis by blast
qed

text \<open>
  The label follows the returned score, so it moves with it: with the scores 0, 48, 91
  and 19 and \<open>objectionHandled\<close> true the exact sum is 44.5, which rounds to 45, a
  \<open>Warm\<close> lead; the binary64 sum is 44.49999999999999, and the function returns
  44 and \<open>Cold\<close>.
\<close>

lemma label_reads:
  "productKnowledge labelAnalysis = 0" "persuasion labelAnalysis = 48"
  "activeListening labelAnalysis = 91" "clarity labelAnalysis = 19"
  "objectionHandled (compliance labelAnalysis) = True"
  by (simp_all add: labelAnalysis_def productKnowledge_def persuasion_def
      activeListening_def clarity_def or_zero_def)

lemma label_steps:
  "fmul 48 (to_double (3 / 10)) = 2026619832316723 / 140737488355328"
  "fmul 91 (to_double (2 / 10)) = 5122844576133939 / 281474976710656"
  "fmul 19 (to_double (1 / 10)) = 8556839292003943 / 4503599627370496"
  unfolding fmul_def w3 w2 w1
    apply (subst to_double_tie [of 3 _ 8106479329266892]; simp)
   apply (subst to_double_nearest [of 4 _ 5122844576133939]; simp)
  apply (subst to_double_nearest [of 0 _ 8556839292003943]; simp)
  done

lemma label_sums:
  "fadd 0 (2026619832316723 / 140737488355328) = 2026619832316723 / 140737488355328"
  "fadd (2026619832316723 / 140737488355328) (5122844576133939 / 281474976710656)
     = 1147010530095923 / 35184372088832"
  "fadd (1147010530095923 / 35184372088832) (8556839292003943 / 4503599627370496)
     = 4855443348258815 / 140737488355328"
  "fadd (4855443348258815 / 140737488355328) 10 = 6262818231812095 / 140737488355328"
  unfolding fadd_def
     apply (subst to_double_nearest [of 3 _ 8106479329266892]; simp)
    apply (subst to_double_tie [of 5 _ 4588042120383692]; simp)
   apply (subst to_double_nearest [of 5 _ 4855443348258815]; simp)
  apply (subst to_double_nearest [of 5 _ 6262818231812095]; simp)
  done

lemma label_moves_with_score:
  "calculateLeadStrength labelAnalysis = \<lparr>score = 44, label = Cold, color = ''#E11D48''\<rparr>
   \<and> js_round (spec_weightedSum labelAnalysis) = 45"
proof -
  have "weightedSum labelAnalysis =
      fadd (fadd (fadd (fadd (fmul 0 (to_double (3 / 10))) (fmul 48 (to_double (3 / 10))))
        (fmul 91 (to_double (2 / 10)))) (fmul 19 (to_double (1 / 10))))
        (fmul 100 (to_double (1 / 10)))"
    by (simp only: weightedSum_def weights_def label_reads Weights.simps if_True)
  also have "\<dots> = 6262818231812095 / 140737488355328"
    by (simp only: zero1 max1 label_steps label_sums)
  finally have w: "weightedSum labelAnalysis = 6262818231812095 / 140737488355328" .
  have r: "js_round (6262818231812095 / 140737488355328) = 44"
    unfolding js_round_def by linarith
  have a: "calculateLeadStrength labelAnalysis
      = \<lparr>score = 44, label = Cold, color = ''#E11D48''\<rparr>"
    by (simp add: calculateLeadStrength_def Let_def w r)
  have x: "spec_weightedSum labelAnalysis = 89 / 2"
    by (simp add: spec_weightedSum_def label_reads)
  have b: "js_round (spec_weightedSum labelAnalysis) = 45"
    unfolding x js_round_def by linarith
  from a b show ?thesis by simp
qed

end
